theory Spec2Isabelle
  imports Complex_Main "HOL-Library.AList" "HOL-Library.Log_Nat"
begin

section \<open>The jade-dev-assist task dashboard (bin/dashboard.py)\<close>

text \<open>
  A shallow embedding of \<^verbatim>\<open>bin/dashboard.py\<close>: the two loaders, the ratio formatter
  \<^verbatim>\<open>make_progress_bar\<close>, the aggregation and row construction of \<^verbatim>\<open>build_display\<close> and
  the refresh loop of \<^verbatim>\<open>main\<close>.

  Conventions of the model.
  \<^item> A Python \<^verbatim>\<open>str\<close> is a \<^typ>\<open>string\<close>; a character outside ASCII is written as its
    UTF-8 bytes.
  \<^item> A Python exception is a value of type \<open>error\<close>; a function that can raise returns
    \<open>error + 'a\<close> with \<open>Inl\<close> for the exception.
  \<^item> A Python \<^verbatim>\<open>int\<close> is an \<^typ>\<open>int\<close>. A Python \<^verbatim>\<open>float\<close> (IEEE 754 binary64) is a
    sign and a rational magnitude; every float operation rounds its exact result to the
    nearest binary64 value, ties to even.
  \<^item> Memory is unbounded: a string of any length can be built.
\<close>

subsection \<open>Exceptions\<close>

datatype error =
    AttributeError
  | KeyError
  | TypeError
  | OverflowError
  | KeyboardInterrupt
  | OtherError

definition bind :: "error + 'a \<Rightarrow> ('a \<Rightarrow> error + 'b) \<Rightarrow> error + 'b" where
  "bind m f = (case m of Inl e \<Rightarrow> Inl e | Inr x \<Rightarrow> f x)"

subsection \<open>Python floats\<close>

text \<open>
  \<open>binade m\<close> is the exponent \<open>e\<close> with \<open>2^e \<le> m < 2^(e+1)\<close> of a positive rational,
  computed from the bit lengths (\<^const>\<open>bitlen\<close>, Python's \<^verbatim>\<open>int.bit_length\<close>) of its
  numerator and denominator.
\<close>

definition binade :: "rat \<Rightarrow> int" where
  "binade m =
     (let (p, q) = quotient_of m;
          d = bitlen p - bitlen q
      in if 2 powi d \<le> m then d else d - 1)"

text \<open>Rounding to the nearest integer, ties to the even one.\<close>

definition round_half_even :: "rat \<Rightarrow> int" where
  "round_half_even y =
     (let f = \<lfloor>y\<rfloor>; r = y - of_int f
      in if r < 1 / 2 then f
         else if 1 / 2 < r then f + 1
         else if even f then f else f + 1)"

text \<open>
  The spacing of binary64 values around a positive magnitude \<open>m\<close> is \<open>2^quantum m\<close>: 53
  significant bits in the normal range, \<open>2^-1074\<close> in the subnormal range. \<open>fl m\<close> is the
  magnitude \<open>m\<close> rounded to that grid, before any overflow check.
\<close>

definition quantum :: "rat \<Rightarrow> int" where
  "quantum m = max (binade m - 52) (- 1074)"

definition fl :: "rat \<Rightarrow> rat" where
  "fl m = (if m = 0 then 0
           else of_int (round_half_even (m / 2 powi quantum m)) * 2 powi quantum m)"

definition overflows :: "rat \<Rightarrow> bool" where
  "overflows m \<longleftrightarrow> 2 ^ 1024 \<le> fl m"

text \<open>
  A float is finite (sign bit, magnitude) or an infinity (sign bit); the sign bit is
  \<open>True\<close> for a negative value, and a finite magnitude \<open>0\<close> with sign bit \<open>True\<close> is
  \<^verbatim>\<open>-0.0\<close>. No operation of this program produces a NaN.
\<close>

datatype pyfloat = Finite bool rat | Infinite bool

text \<open>
  \<^verbatim>\<open>a / b\<close> on two ints with \<^verbatim>\<open>b != 0\<close>: the correctly rounded quotient, or
  \<^verbatim>\<open>OverflowError\<close> when it is too large for a float.
\<close>

definition int_truediv :: "int \<Rightarrow> int \<Rightarrow> error + pyfloat" where
  "int_truediv a b =
     (let m = \<bar>of_int a / of_int b\<bar>
      in if overflows m then Inl OverflowError
         else Inr (Finite ((a < 0) \<noteq> (b < 0)) (fl m)))"

text \<open>\<^verbatim>\<open>float(n)\<close> for an int: correctly rounded, or \<^verbatim>\<open>OverflowError\<close>.\<close>

definition int_to_float :: "int \<Rightarrow> error + pyfloat" where
  "int_to_float n =
     (let m = \<bar>of_int n\<bar>
      in if overflows m then Inl OverflowError else Inr (Finite (n < 0) (fl m)))"

text \<open>The product of two finite floats; an overflow gives an infinity, not an exception.\<close>

definition float_mul :: "bool \<Rightarrow> rat \<Rightarrow> bool \<Rightarrow> rat \<Rightarrow> pyfloat" where
  "float_mul s1 m1 s2 m2 =
     (if overflows (m1 * m2) then Infinite (s1 \<noteq> s2)
      else Finite (s1 \<noteq> s2) (fl (m1 * m2)))"

text \<open>\<^verbatim>\<open>x * n\<close> for a finite float \<^verbatim>\<open>x\<close> and an int \<^verbatim>\<open>n\<close>: \<^verbatim>\<open>n\<close> is converted first.\<close>

definition float_mul_int :: "pyfloat \<Rightarrow> int \<Rightarrow> error + pyfloat" where
  "float_mul_int x n =
     (case x of
        Infinite s \<Rightarrow> Inl OtherError
      | Finite s1 m1 \<Rightarrow>
          (case int_to_float n of
             Inl e \<Rightarrow> Inl e
           | Inr (Infinite s) \<Rightarrow> Inl OtherError
           | Inr (Finite s2 m2) \<Rightarrow> Inr (float_mul s1 m1 s2 m2)))"

text \<open>\<^verbatim>\<open>int(x)\<close>: truncation toward zero; an infinity raises \<^verbatim>\<open>OverflowError\<close>.\<close>

definition float_to_int :: "pyfloat \<Rightarrow> error + int" where
  "float_to_int x =
     (case x of
        Infinite s \<Rightarrow> Inl OverflowError
      | Finite s m \<Rightarrow> Inr (if s then - \<lfloor>m\<rfloor> else \<lfloor>m\<rfloor>))"

subsection \<open>Strings\<close>

text \<open>The decimal digit \<open>d < 10\<close> as a character.\<close>

definition digit_char :: "nat \<Rightarrow> char" where
  "digit_char d = ''0123456789'' ! d"

fun str_nat :: "nat \<Rightarrow> string" where
  "str_nat n = (if n < 10 then [digit_char n] else str_nat (n div 10) @ [digit_char (n mod 10)])"

declare str_nat.simps [simp del]

text \<open>\<^verbatim>\<open>str(n)\<close> for an int.\<close>

definition str_int :: "int \<Rightarrow> string" where
  "str_int n = (if n < 0 then ''-'' @ str_nat (nat (- n)) else str_nat (nat n))"

text \<open>\<^verbatim>\<open>s * n\<close>: \<^verbatim>\<open>n\<close> copies of \<^verbatim>\<open>s\<close>, none when \<^verbatim>\<open>n\<close> is negative.\<close>

definition str_repeat :: "string \<Rightarrow> int \<Rightarrow> string" where
  "str_repeat s n = concat (replicate (nat n) s)"

text \<open>Right alignment in a field of width \<open>w\<close>, padded with blanks (format \<^verbatim>\<open>>w\<close>).\<close>

definition rjust :: "nat \<Rightarrow> string \<Rightarrow> string" where
  "rjust w s = replicate (w - length s) CHR '' '' @ s"

text \<open>
  The format \<^verbatim>\<open>>4.0%\<close> of a finite float: the value times 100 (a float product), printed
  with no decimals (the exact binary value rounded half to even), a minus sign when the
  sign bit is set, a percent sign after it, right-aligned in four columns.
\<close>

definition format_percent :: "pyfloat \<Rightarrow> string" where
  "format_percent x =
     (case x of
        Infinite s \<Rightarrow> rjust 4 ((if s then ''-'' else '''') @ ''inf%'')
      | Finite s m \<Rightarrow>
          (case float_mul s m False 100 of
             Infinite s' \<Rightarrow> rjust 4 ((if s' then ''-'' else '''') @ ''inf%'')
           | Finite s' m' \<Rightarrow>
               rjust 4 ((if s' then ''-'' else '''')
                         @ str_nat (nat (round_half_even m')) @ ''%'')))"

subsection \<open>The ratio formatter\<close>

text \<open>The cells of the bar: U+2588 FULL BLOCK and U+2591 LIGHT SHADE, in UTF-8.\<close>

definition full_cell :: string where
  "full_cell = [CHR 0xE2, CHR 0x96, CHR 0x88]"

definition empty_cell :: string where
  "empty_cell = [CHR 0xE2, CHR 0x96, CHR 0x91]"

text \<open>
  \<^verbatim>\<open>
  def make_progress_bar(done: int, total: int, width: int = 20) -> str:
      if total == 0:
          return "[dim]" + "-" * width + "[/]  --"
      pct = done / total
      filled = int(pct * width)
      bar = "[green]" + FULL * filled + "[/][dim]" + EMPTY * (width - filled) + "[/]"
      return f"{bar} {pct:>4.0%}"
  \<close>
\<close>

definition make_progress_bar :: "int \<Rightarrow> int \<Rightarrow> int \<Rightarrow> error + string" where
  "make_progress_bar done tot width =
     (if tot = 0 then Inr (''[dim]'' @ str_repeat ''-'' width @ ''[/]  --'')
      else
        bind (int_truediv done tot) (\<lambda>pct.
        bind (float_mul_int pct width) (\<lambda>prod.
        bind (float_to_int prod) (\<lambda>filled.
          let bar = ''[green]'' @ str_repeat full_cell filled @ ''[/][dim]''
                    @ str_repeat empty_cell (width - filled) @ ''[/]''
          in Inr (bar @ '' '' @ format_percent pct)))))"

subsection \<open>Values read from JSON\<close>

text \<open>
  What \<^verbatim>\<open>json.loads\<close> returns: \<^verbatim>\<open>None\<close>, a bool, an int, a str, a list or a dict with
  str keys. A dict is an association list in insertion order, looked up by its first
  binding of a key. JSON numbers with a fraction or an exponent (Python floats) are not
  part of the model.
\<close>

datatype json =
    JNull
  | JBool bool
  | JInt int
  | JStr string
  | JArr "json list"
  | JObj "(string \<times> json) list"

text \<open>\<^verbatim>\<open>x.get(key, default)\<close>: only a dict has the method.\<close>

definition py_get :: "json \<Rightarrow> string \<Rightarrow> json \<Rightarrow> error + json" where
  "py_get x k d =
     (case x of
        JObj kvs \<Rightarrow> Inr (case map_of kvs k of None \<Rightarrow> d | Some v \<Rightarrow> v)
      | _ \<Rightarrow> Inl AttributeError)"

text \<open>
  \<^verbatim>\<open>x[key]\<close> with a str key: \<^verbatim>\<open>KeyError\<close> on a dict without it, \<^verbatim>\<open>TypeError\<close> on
  everything that is not a dict.
\<close>

definition py_getitem :: "json \<Rightarrow> string \<Rightarrow> error + json" where
  "py_getitem x k =
     (case x of
        JObj kvs \<Rightarrow> (case map_of kvs k of None \<Rightarrow> Inl KeyError | Some v \<Rightarrow> Inr v)
      | _ \<Rightarrow> Inl TypeError)"

text \<open>
  \<^verbatim>\<open>for item in x\<close>: the items of a list, the keys of a dict, the characters of a
  str; nothing else is iterable.
\<close>

definition py_iter :: "json \<Rightarrow> error + json list" where
  "py_iter x =
     (case x of
        JArr xs \<Rightarrow> Inr xs
      | JObj kvs \<Rightarrow> Inr (map JStr (remdups (map fst kvs)))
      | JStr s \<Rightarrow> Inr (map (\<lambda>c. JStr [c]) s)
      | _ \<Rightarrow> Inl TypeError)"

text \<open>\<^verbatim>\<open>len(x)\<close>.\<close>

definition py_len :: "json \<Rightarrow> error + int" where
  "py_len x =
     (case x of
        JArr xs \<Rightarrow> Inr (int (length xs))
      | JObj kvs \<Rightarrow> Inr (int (length (remdups (map fst kvs))))
      | JStr s \<Rightarrow> Inr (int (length s))
      | _ \<Rightarrow> Inl TypeError)"

text \<open>The truth value of \<^verbatim>\<open>x\<close> in \<^verbatim>\<open>if not x\<close>.\<close>

definition py_truthy :: "json \<Rightarrow> bool" where
  "py_truthy x =
     (case x of
        JNull \<Rightarrow> False
      | JBool b \<Rightarrow> b
      | JInt i \<Rightarrow> i \<noteq> 0
      | JStr s \<Rightarrow> s \<noteq> []
      | JArr xs \<Rightarrow> xs \<noteq> []
      | JObj kvs \<Rightarrow> kvs \<noteq> [])"

text \<open>
  A value used as a dict key is hashed; lists and dicts are unhashable
  (\<^verbatim>\<open>TypeError\<close>). Keys are compared with \<^verbatim>\<open>==\<close>, under which \<^verbatim>\<open>True == 1\<close> and
  \<^verbatim>\<open>False == 0\<close>.
\<close>

datatype key = KNone | KNum int | KStr string

definition py_hash :: "json \<Rightarrow> error + key" where
  "py_hash x =
     (case x of
        JNull \<Rightarrow> Inr KNone
      | JBool b \<Rightarrow> Inr (KNum (if b then 1 else 0))
      | JInt i \<Rightarrow> Inr (KNum i)
      | JStr s \<Rightarrow> Inr (KStr s)
      | _ \<Rightarrow> Inl TypeError)"

subsection \<open>Paths and files\<close>

text \<open>
  A POSIX \<^verbatim>\<open>pathlib\<close> path: its root (empty, \<^verbatim>\<open>/\<close> or \<^verbatim>\<open>//\<close>) and its parts. Parsing
  a str drops empty and \<^verbatim>\<open>.\<close> components; joining with an absolute path replaces the
  left operand.
\<close>

type_synonym path = "string \<times> string list"

fun split_on :: "char \<Rightarrow> string \<Rightarrow> string list" where
  "split_on c [] = [[]]"
| "split_on c (x # xs) =
     (if x = c then [] # split_on c xs
      else (case split_on c xs of
              [] \<Rightarrow> [[x]]
            | y # ys \<Rightarrow> (x # y) # ys))"

definition parse_path :: "string \<Rightarrow> path" where
  "parse_path s =
     ((if take 2 s = ''//'' \<and> take 3 s \<noteq> ''///'' then ''//''
       else if take 1 s = ''/'' then ''/'' else []),
      filter (\<lambda>p. p \<noteq> [] \<and> p \<noteq> ''.'') (split_on CHR ''/'' s))"

text \<open>\<^verbatim>\<open>p / s\<close> for a path \<^verbatim>\<open>p\<close> and a str \<^verbatim>\<open>s\<close>.\<close>

definition path_join :: "path \<Rightarrow> string \<Rightarrow> path" where
  "path_join p s =
     (let q = parse_path s
      in if fst q \<noteq> [] then q else (fst p, snd p @ snd q))"

fun join_with :: "string \<Rightarrow> string list \<Rightarrow> string" where
  "join_with sep [] = []"
| "join_with sep [x] = x"
| "join_with sep (x # y # ys) = x @ sep @ join_with sep (y # ys)"

text \<open>\<^verbatim>\<open>str(p)\<close>.\<close>

definition str_path :: "path \<Rightarrow> string" where
  "str_path p =
     (if fst p = [] \<and> snd p = [] then ''.'' else fst p @ join_with ''/'' (snd p))"

text \<open>
  \<^verbatim>\<open>
  PROJECTS_JSON = Path.home() / ".jade" / "projects.json"
  PROJECTS_ROOT = Path.home() / "projects"
  \<close>
  The home directory is a parameter of the model.
\<close>

definition PROJECTS_JSON :: "path \<Rightarrow> path" where
  "PROJECTS_JSON home = path_join (path_join home ''.jade'') ''projects.json''"

definition PROJECTS_ROOT :: "path \<Rightarrow> path" where
  "PROJECTS_ROOT home = path_join home ''projects''"

text \<open>
  What \<^verbatim>\<open>json.loads(path.read_text())\<close> does on a path: it raises
  \<^verbatim>\<open>FileNotFoundError\<close>, raises \<^verbatim>\<open>json.JSONDecodeError\<close>, raises something else
  (\<^verbatim>\<open>PermissionError\<close>, \<^verbatim>\<open>IsADirectoryError\<close>, \<^verbatim>\<open>UnicodeDecodeError\<close>, ...) or returns
  the parsed value. The world seen by one refresh cycle is the outcome for every path
  and the wall-clock time (\<^verbatim>\<open>time.strftime("%H:%M:%S")\<close>).
\<close>

datatype read_result =
    FileNotFoundError
  | JSONDecodeError
  | OtherFailure
  | Loaded json

record world =
  files :: "path \<Rightarrow> read_result"
  clock :: string

subsection \<open>The loaders\<close>

text \<open>
  \<^verbatim>\<open>
  def load_registry() -> dict:
      try:
          return json.loads(PROJECTS_JSON.read_text())
      except (FileNotFoundError, json.JSONDecodeError):
          return {"version": 1, "projects_root": str(PROJECTS_ROOT), "projects": []}
  \<close>
\<close>

definition empty_registry :: "path \<Rightarrow> json" where
  "empty_registry home =
     JObj [(''version'', JInt 1),
           (''projects_root'', JStr (str_path (PROJECTS_ROOT home))),
           (''projects'', JArr [])]"

definition load_registry :: "path \<Rightarrow> world \<Rightarrow> error + json" where
  "load_registry home w =
     (case files w (PROJECTS_JSON home) of
        Loaded j \<Rightarrow> Inr j
      | FileNotFoundError \<Rightarrow> Inr (empty_registry home)
      | JSONDecodeError \<Rightarrow> Inr (empty_registry home)
      | OtherFailure \<Rightarrow> Inl OtherError)"

text \<open>
  \<^verbatim>\<open>
  def load_tasks(project_path: str) -> dict:
      tasks_file = PROJECTS_ROOT / project_path / ".claude" / "tasks" / "tasks.json"
      try:
          return json.loads(tasks_file.read_text())
      except (FileNotFoundError, json.JSONDecodeError):
          return {"tasks": []}
  \<close>
  The argument is whatever \<^verbatim>\<open>proj["path"]\<close> holds; dividing a path by anything but a str
  raises \<^verbatim>\<open>TypeError\<close>.
\<close>

definition tasks_file :: "path \<Rightarrow> string \<Rightarrow> path" where
  "tasks_file home project_path =
     path_join (path_join (path_join (path_join (PROJECTS_ROOT home) project_path)
       ''.claude'') ''tasks'') ''tasks.json''"

definition load_tasks :: "path \<Rightarrow> world \<Rightarrow> json \<Rightarrow> error + json" where
  "load_tasks home w project_path =
     (case project_path of
        JStr s \<Rightarrow>
          (case files w (tasks_file home s) of
             Loaded j \<Rightarrow> Inr j
           | FileNotFoundError \<Rightarrow> Inr (JObj [(''tasks'', JArr [])])
           | JSONDecodeError \<Rightarrow> Inr (JObj [(''tasks'', JArr [])])
           | OtherFailure \<Rightarrow> Inl OtherError)
      | _ \<Rightarrow> Inl TypeError)"

subsection \<open>Aggregation\<close>

text \<open>
  The status tally of one project is a dict from hashed keys to ints, kept in insertion
  order. The two global lists hold pairs (project name, task title).
\<close>

type_synonym counts = "(key \<times> int) list"

type_synonym entry = "json \<times> json"

definition initial_counts :: counts where
  "initial_counts =
     [(KStr ''pending'', 0), (KStr ''in_progress'', 0), (KStr ''completed'', 0),
      (KStr ''blocked'', 0), (KStr ''failed'', 0)]"

text \<open>\<^verbatim>\<open>counts.get(k, d)\<close>, \<^verbatim>\<open>counts[k]\<close> and \<^verbatim>\<open>counts[k] = v\<close>.\<close>

definition counts_get :: "counts \<Rightarrow> key \<Rightarrow> int \<Rightarrow> int" where
  "counts_get c k d = (case map_of c k of None \<Rightarrow> d | Some v \<Rightarrow> v)"

definition counts_getitem :: "counts \<Rightarrow> key \<Rightarrow> error + int" where
  "counts_getitem c k = (case map_of c k of None \<Rightarrow> Inl KeyError | Some v \<Rightarrow> Inr v)"

definition counts_set :: "counts \<Rightarrow> key \<Rightarrow> int \<Rightarrow> counts" where
  "counts_set c k v = AList.update k v c"

text \<open>One entry of \<^verbatim>\<open>all_stats\<close>: \<^verbatim>\<open>(proj, counts, n, done, milestone)\<close>.\<close>

record stat =
  st_proj :: json
  st_counts :: counts
  st_n :: int
  st_done :: int
  st_milestone :: json

text \<open>The variables that the gathering loop of \<^verbatim>\<open>build_display\<close> updates.\<close>

record gathered =
  all_stats :: "stat list"
  all_in_progress :: "entry list"
  all_completed :: "entry list"
  total_tasks :: int
  total_done :: int

definition empty_gathered :: gathered where
  "empty_gathered =
     \<lparr>all_stats = [], all_in_progress = [], all_completed = [],
      total_tasks = 0, total_done = 0\<rparr>"

text \<open>\<^verbatim>\<open>t.get("title", t.get("id", "?"))\<close>: the inner default is evaluated first.\<close>

definition task_title :: "json \<Rightarrow> error + json" where
  "task_title t = bind (py_get t ''id'' (JStr ''?'')) (\<lambda>d. py_get t ''title'' d)"

text \<open>
  The body of the inner loop:
  \<^verbatim>\<open>
  s = t.get("status", "pending")
  counts[s] = counts.get(s, 0) + 1
  if s == "in_progress":
      all_in_progress.append((proj["name"], t.get("title", t.get("id", "?"))))
  if s == "completed":
      all_completed.append((proj["name"], t.get("title", t.get("id", "?"))))
  \<close>
\<close>

definition append_entry :: "json \<Rightarrow> json \<Rightarrow> entry list \<Rightarrow> error + entry list" where
  "append_entry proj t xs =
     bind (py_getitem proj ''name'') (\<lambda>name.
     bind (task_title t) (\<lambda>title.
       Inr (xs @ [(name, title)])))"

definition count_task :: "json \<Rightarrow> counts \<times> gathered \<Rightarrow> json \<Rightarrow> error + counts \<times> gathered" where
  "count_task proj cg t =
     bind (py_get t ''status'' (JStr ''pending'')) (\<lambda>s.
     bind (py_hash s) (\<lambda>k.
     bind (if s = JStr ''in_progress'' then append_entry proj t (all_in_progress (snd cg))
           else Inr (all_in_progress (snd cg))) (\<lambda>ip.
     bind (if s = JStr ''completed'' then append_entry proj t (all_completed (snd cg))
           else Inr (all_completed (snd cg))) (\<lambda>comp.
       Inr (counts_set (fst cg) k (counts_get (fst cg) k 0 + 1),
            (snd cg)\<lparr>all_in_progress := ip, all_completed := comp\<rparr>)))))"

fun count_tasks :: "json \<Rightarrow> counts \<times> gathered \<Rightarrow> json list \<Rightarrow> error + counts \<times> gathered" where
  "count_tasks proj cg [] = Inr cg"
| "count_tasks proj cg (t # ts) = bind (count_task proj cg t) (\<lambda>cg'. count_tasks proj cg' ts)"

text \<open>
  The body of the outer loop:
  \<^verbatim>\<open>
  data = load_tasks(proj["path"])
  tasks = data.get("tasks", [])
  counts = {"pending": 0, "in_progress": 0, "completed": 0, "blocked": 0, "failed": 0}
  for t in tasks: ...
  n = len(tasks)
  done = counts["completed"]
  total_tasks += n
  total_done += done
  milestone = data.get("milestone", {}).get("name", "")
  all_stats.append((proj, counts, n, done, milestone))
  \<close>
\<close>

definition process_project :: "path \<Rightarrow> world \<Rightarrow> gathered \<Rightarrow> json \<Rightarrow> error + gathered" where
  "process_project home w g proj =
     bind (py_getitem proj ''path'') (\<lambda>project_path.
     bind (load_tasks home w project_path) (\<lambda>data.
     bind (py_get data ''tasks'' (JArr [])) (\<lambda>tasks.
     bind (py_iter tasks) (\<lambda>ts.
     bind (count_tasks proj (initial_counts, g) ts) (\<lambda>cg.
     bind (py_len tasks) (\<lambda>n.
     bind (counts_getitem (fst cg) (KStr ''completed'')) (\<lambda>done.
     bind (py_get data ''milestone'' (JObj [])) (\<lambda>m.
     bind (py_get m ''name'' (JStr [])) (\<lambda>milestone.
       Inr ((snd cg)
         \<lparr>all_stats := all_stats (snd cg) @
            [\<lparr>st_proj = proj, st_counts = fst cg, st_n = n, st_done = done,
              st_milestone = milestone\<rparr>],
          total_tasks := total_tasks (snd cg) + n,
          total_done := total_done (snd cg) + done\<rparr>))))))))))"

fun process_projects :: "path \<Rightarrow> world \<Rightarrow> gathered \<Rightarrow> json list \<Rightarrow> error + gathered" where
  "process_projects home w g [] = Inr g"
| "process_projects home w g (proj # projs) =
     bind (process_project home w g proj) (\<lambda>g'. process_projects home w g' projs)"

text \<open>The part of \<^verbatim>\<open>build_display\<close> under the comment \<^verbatim>\<open>-- Gather all data --\<close>.\<close>

definition gather :: "path \<Rightarrow> world \<Rightarrow> json \<Rightarrow> error + gathered" where
  "gather home w registry =
     bind (py_get registry ''projects'' (JArr [])) (\<lambda>projects.
     bind (py_iter projects) (\<lambda>projs.
       process_projects home w empty_gathered projs))"

text \<open>\<^verbatim>\<open>recent = all_completed[-8:]\<close>\<close>

definition recently_completed :: "gathered \<Rightarrow> entry list" where
  "recently_completed g = drop (length (all_completed g) - 8) (all_completed g)"

subsection \<open>The rows and panels handed to the renderer\<close>

text \<open>
  A table cell is the value passed to \<^verbatim>\<open>add_row\<close>. A panel text is an f-string: literal
  pieces and interpolated values (\<^verbatim>\<open>{proj}\<close>, \<^verbatim>\<open>{title}\<close>), which \<^verbatim>\<open>format\<close> turns into text.
  The table title, the column headers, the panel titles and the styles are constants of
  the layout and are left out.
\<close>

datatype piece = Lit string | Interp json

type_synonym markup = "piece list"

record display =
  tbl_rows :: "json list list"
  tbl_total :: "json list"
  ip_panel :: markup
  rc_panel :: markup
  footer :: string

definition PROJECT_STATUS_ICONS :: "(string \<times> string) list" where
  "PROJECT_STATUS_ICONS =
     [(''buildable'', ''[green]OK[/]''),
      (''near-buildable'', ''[yellow]~OK[/]''),
      (''scaffolding-plus'', ''[yellow]S+[/]''),
      (''scaffolding'', ''[dim]S[/]''),
      (''blocked'', ''[red]BLK[/]'')]"

text \<open>\<^verbatim>\<open>PROJECT_STATUS_ICONS.get(x, "?")\<close> for a hashed \<^verbatim>\<open>x\<close>.\<close>

definition icon_for :: "key \<Rightarrow> string" where
  "icon_for k =
     (case k of
        KStr s \<Rightarrow> (case map_of PROJECT_STATUS_ICONS s of None \<Rightarrow> ''?'' | Some i \<Rightarrow> i)
      | _ \<Rightarrow> ''?'')"

text \<open>\<^verbatim>\<open>str(c or "")\<close> for an int \<^verbatim>\<open>c\<close>.\<close>

definition count_cell :: "int \<Rightarrow> json" where
  "count_cell c = JStr (if c = 0 then [] else str_int c)"

text \<open>
  \<^verbatim>\<open>
  icon = PROJECT_STATUS_ICONS.get(proj.get("status", ""), "?")
  bar = make_progress_bar(done, n)
  tbl.add_row(proj["name"], icon, str(counts["pending"] or ""), ..., bar, milestone)
  \<close>
\<close>

definition project_row :: "stat \<Rightarrow> error + json list" where
  "project_row st =
     bind (py_get (st_proj st) ''status'' (JStr [])) (\<lambda>s.
     bind (py_hash s) (\<lambda>k.
     bind (make_progress_bar (st_done st) (st_n st) 20) (\<lambda>bar.
     bind (py_getitem (st_proj st) ''name'') (\<lambda>name.
     bind (counts_getitem (st_counts st) (KStr ''pending'')) (\<lambda>pend.
     bind (counts_getitem (st_counts st) (KStr ''in_progress'')) (\<lambda>run.
     bind (counts_getitem (st_counts st) (KStr ''completed'')) (\<lambda>comp.
     bind (counts_getitem (st_counts st) (KStr ''blocked'')) (\<lambda>blk.
     bind (counts_getitem (st_counts st) (KStr ''failed'')) (\<lambda>fail.
       Inr [name, JStr (icon_for k), count_cell pend, count_cell run, count_cell comp,
            count_cell blk, count_cell fail, JStr bar, st_milestone st])))))))))"

fun project_rows :: "stat list \<Rightarrow> error + json list list" where
  "project_rows [] = Inr []"
| "project_rows (st # sts) =
     bind (project_row st) (\<lambda>r. bind (project_rows sts) (\<lambda>rs. Inr (r # rs)))"

text \<open>\<^verbatim>\<open>sum(c[k] for _, c, *_ in all_stats)\<close>\<close>

fun sum_status :: "string \<Rightarrow> stat list \<Rightarrow> error + int" where
  "sum_status k [] = Inr 0"
| "sum_status k (st # sts) =
     bind (counts_getitem (st_counts st) (KStr k)) (\<lambda>c.
     bind (sum_status k sts) (\<lambda>r. Inr (c + r)))"

definition total_row :: "gathered \<Rightarrow> error + json list" where
  "total_row g =
     bind (make_progress_bar (total_done g) (total_tasks g) 20) (\<lambda>overall_bar.
     bind (sum_status ''pending'' (all_stats g)) (\<lambda>pend.
     bind (sum_status ''in_progress'' (all_stats g)) (\<lambda>run.
     bind (sum_status ''completed'' (all_stats g)) (\<lambda>comp.
     bind (sum_status ''blocked'' (all_stats g)) (\<lambda>blk.
     bind (sum_status ''failed'' (all_stats g)) (\<lambda>fail.
       Inr [JStr ''[bold]TOTAL[/]'', JStr [], count_cell pend, count_cell run,
            count_cell comp, count_cell blk, count_cell fail, JStr overall_bar,
            JStr (str_int (total_done g) @ ''/'' @ str_int (total_tasks g) @ '' tasks'')]))))))"

text \<open>\<^verbatim>\<open>"\n".join(lines)\<close>\<close>

fun join_lines :: "markup list \<Rightarrow> markup" where
  "join_lines [] = []"
| "join_lines [l] = l"
| "join_lines (l # l' # ls) = l @ [Lit [CHR 0x0A]] @ join_lines (l' # ls)"

definition in_progress_line :: "entry \<Rightarrow> markup" where
  "in_progress_line e =
     [Lit ''  [cyan]>[/] [bold]'', Interp (fst e), Lit ''[/]: '', Interp (snd e)]"

text \<open>The check mark is U+2713, in UTF-8.\<close>

definition completed_line :: "entry \<Rightarrow> markup" where
  "completed_line e =
     [Lit (''  [green]'' @ [CHR 0xE2, CHR 0x9C, CHR 0x93] @ ''[/] [dim]''), Interp (fst e),
      Lit ''[/]: '', Interp (snd e)]"

definition in_progress_panel :: "gathered \<Rightarrow> markup" where
  "in_progress_panel g =
     (if all_in_progress g \<noteq> [] then join_lines (map in_progress_line (all_in_progress g))
      else [Lit ''  [dim]No tasks in progress[/]''])"

definition completed_panel :: "gathered \<Rightarrow> markup" where
  "completed_panel g =
     (let recent = recently_completed g
      in if recent \<noteq> [] then join_lines (map completed_line recent)
         else [Lit ''  [dim]No completed tasks yet[/]''])"

text \<open>
  \<^verbatim>\<open>f"  Refreshing every {REFRESH_INTERVAL:.0f}s  |  {ts}  |  Ctrl+C to exit"\<close> with
  \<^verbatim>\<open>REFRESH_INTERVAL = 2.5\<close>, which the format \<^verbatim>\<open>.0f\<close> prints as \<^verbatim>\<open>2\<close>.
\<close>

definition footer_line :: "world \<Rightarrow> string" where
  "footer_line w = ''  Refreshing every 2s  |  '' @ clock w @ ''  |  Ctrl+C to exit''"

definition render :: "world \<Rightarrow> gathered \<Rightarrow> error + display" where
  "render w g =
     bind (project_rows (all_stats g)) (\<lambda>rows.
     bind (total_row g) (\<lambda>total.
       Inr \<lparr>tbl_rows = rows, tbl_total = total,
            ip_panel = in_progress_panel g, rc_panel = completed_panel g,
            footer = footer_line w\<rparr>))"

definition build_display :: "path \<Rightarrow> world \<Rightarrow> json \<Rightarrow> error + display" where
  "build_display home w registry = bind (gather home w registry) (render w)"

subsection \<open>The refresh loop\<close>

text \<open>
  \<^verbatim>\<open>main\<close> as a state machine. An event is one turn of the environment: a tick carries
  the world that the loads of that turn read, an interrupt is a \<^verbatim>\<open>KeyboardInterrupt\<close>
  (taken between turns, during \<^verbatim>\<open>time.sleep\<close>). The first tick is the start of the
  program. The screen is the list of everything printed or shown so far.
  \<^verbatim>\<open>
  registry = load_registry()
  if not registry.get("projects"):
      console.print("[red]No projects found in ~/.jade/projects.json[/]")
      return
  console.print("[dim]Starting jade task dashboard... Ctrl+C to exit.[/]\n")
  try:
      with Live(build_display(registry), ...) as live:
          while True:
              time.sleep(REFRESH_INTERVAL)
              registry = load_registry()
              live.update(build_display(registry))
  except KeyboardInterrupt:
      console.print("\n[dim]Dashboard stopped.[/]")
  \<close>
\<close>

datatype shown = Print string | Live_start display | Live_update display

datatype phase = Idle | Running | Exited | Stopped | Crashed error

datatype event = Tick world | Interrupt

record dashboard =
  mode :: phase
  screen :: "shown list"

definition no_projects_message :: string where
  "no_projects_message = ''[red]No projects found in ~/.jade/projects.json[/]''"

definition starting_message :: string where
  "starting_message = ''[dim]Starting jade task dashboard... Ctrl+C to exit.[/]'' @ [CHR 0x0A]"

definition stopped_message :: string where
  "stopped_message = [CHR 0x0A] @ ''[dim]Dashboard stopped.[/]''"

definition startup :: "path \<Rightarrow> world \<Rightarrow> dashboard" where
  "startup home w =
     (case load_registry home w of
        Inl e \<Rightarrow> \<lparr>mode = Crashed e, screen = []\<rparr>
      | Inr registry \<Rightarrow>
          (case py_get registry ''projects'' JNull of
             Inl e \<Rightarrow> \<lparr>mode = Crashed e, screen = []\<rparr>
           | Inr projects \<Rightarrow>
               if \<not> py_truthy projects
               then \<lparr>mode = Exited, screen = [Print no_projects_message]\<rparr>
               else (case build_display home w registry of
                       Inl e \<Rightarrow> \<lparr>mode = Crashed e, screen = [Print starting_message]\<rparr>
                     | Inr d \<Rightarrow>
                         \<lparr>mode = Running,
                          screen = [Print starting_message, Live_start d]\<rparr>)))"

definition refresh :: "path \<Rightarrow> dashboard \<Rightarrow> world \<Rightarrow> dashboard" where
  "refresh home s w =
     (case bind (load_registry home w) (build_display home w) of
        Inl e \<Rightarrow> s\<lparr>mode := Crashed e\<rparr>
      | Inr d \<Rightarrow> s\<lparr>screen := screen s @ [Live_update d]\<rparr>)"

definition step :: "path \<Rightarrow> dashboard \<Rightarrow> event \<Rightarrow> dashboard" where
  "step home s ev =
     (case mode s of
        Idle \<Rightarrow>
          (case ev of
             Tick w \<Rightarrow> startup home w
           | Interrupt \<Rightarrow> s\<lparr>mode := Crashed KeyboardInterrupt\<rparr>)
      | Running \<Rightarrow>
          (case ev of
             Tick w \<Rightarrow> refresh home s w
           | Interrupt \<Rightarrow> s\<lparr>mode := Stopped, screen := screen s @ [Print stopped_message]\<rparr>)
      | _ \<Rightarrow> s)"

definition initial :: dashboard where
  "initial = \<lparr>mode = Idle, screen = []\<rparr>"

definition main :: "path \<Rightarrow> event list \<Rightarrow> dashboard" where
  "main home evs = foldl (step home) initial evs"

subsection \<open>Reference functions for the aggregation\<close>

text \<open>
  The task list that the outer loop iterates for one project, and the items of the
  registry's project list.
\<close>

definition project_tasks :: "path \<Rightarrow> world \<Rightarrow> json \<Rightarrow> error + json list" where
  "project_tasks home w proj =
     bind (py_getitem proj ''path'') (\<lambda>project_path.
     bind (load_tasks home w project_path) (\<lambda>data.
     bind (py_get data ''tasks'' (JArr [])) py_iter))"

definition registry_projects :: "json \<Rightarrow> error + json list" where
  "registry_projects registry = bind (py_get registry ''projects'' (JArr [])) py_iter"

text \<open>
  The encounter-ordered list that the specification describes: for each project in
  registry order, for each of its tasks in task order, the pair (project name, display
  title) of every task whose status is exactly the given one.
\<close>

definition has_status :: "string \<Rightarrow> json \<Rightarrow> bool" where
  "has_status s t \<longleftrightarrow> py_get t ''status'' (JStr ''pending'') = Inr (JStr s)"

definition entry_of :: "json \<Rightarrow> json \<Rightarrow> entry" where
  "entry_of proj t =
     ((case py_getitem proj ''name'' of Inr name \<Rightarrow> name | Inl e \<Rightarrow> JNull),
      (case task_title t of Inr title \<Rightarrow> title | Inl e \<Rightarrow> JNull))"

definition entries_with :: "string \<Rightarrow> json \<Rightarrow> json list \<Rightarrow> entry list" where
  "entries_with s proj ts = map (entry_of proj) (filter (has_status s) ts)"

definition tasks_or_none :: "path \<Rightarrow> world \<Rightarrow> json \<Rightarrow> json list" where
  "tasks_or_none home w proj = (case project_tasks home w proj of Inr ts \<Rightarrow> ts | Inl e \<Rightarrow> [])"

definition encountered :: "string \<Rightarrow> path \<Rightarrow> world \<Rightarrow> json list \<Rightarrow> entry list" where
  "encountered s home w projs =
     concat (map (\<lambda>proj. entries_with s proj (tasks_or_none home w proj)) projs)"

text \<open>
  The invariant of a tally: its keys are distinct and no count is negative.
\<close>

definition tally_ok :: "counts \<Rightarrow> bool" where
  "tally_ok c \<longleftrightarrow> distinct (map fst c) \<and> (\<forall>v \<in> snd ` set c. 0 \<le> v)"

text \<open>
  The invariant of an entry of \<^verbatim>\<open>all_stats\<close>: the tally is well formed and still has
  its five initial keys, its counts add up to \<^verbatim>\<open>n\<close>, and \<^verbatim>\<open>done\<close> is the count under
  \<^verbatim>\<open>"completed"\<close>.
\<close>

definition stat_ok :: "stat \<Rightarrow> bool" where
  "stat_ok st \<longleftrightarrow>
     tally_ok (st_counts st) \<and>
     (\<forall>k \<in> set (map fst initial_counts). map_of (st_counts st) k \<noteq> None) \<and>
     sum_list (map snd (st_counts st)) = st_n st \<and>
     st_done st = counts_get (st_counts st) (KStr ''completed'') 0"

subsection \<open>Example inputs\<close>

text \<open>
  A home directory, a registry with one project and a root that is not the default one,
  and a task file for that project with six tasks: one pending, one in progress, two
  completed (one of them without title and id), one without a status and one with a
  status outside the five known ones.
\<close>

definition example_home :: path where
  "example_home = (''/'', [''home'', ''jade''])"

definition example_project :: json where
  "example_project =
     JObj [(''name'', JStr ''alpha''), (''path'', JStr ''alpha''), (''status'', JStr ''buildable'')]"

definition example_registry :: json where
  "example_registry =
     JObj [(''version'', JInt 1), (''projects_root'', JStr ''/srv/work''),
           (''projects'', JArr [example_project])]"

definition example_tasks :: "json list" where
  "example_tasks =
     [JObj [(''id'', JStr ''t1''), (''status'', JStr ''pending'')],
      JObj [(''id'', JStr ''t2''), (''title'', JStr ''Build''), (''status'', JStr ''in_progress'')],
      JObj [(''id'', JStr ''t3''), (''status'', JStr ''completed'')],
      JObj [(''status'', JStr ''completed'')],
      JObj [(''id'', JStr ''t5'')],
      JObj [(''id'', JStr ''t6''), (''status'', JStr ''review'')]]"

definition example_files :: "path \<Rightarrow> read_result" where
  "example_files p =
     (if p = (''/'', [''home'', ''jade'', ''.jade'', ''projects.json''])
      then Loaded example_registry
      else if p = (''/'', [''home'', ''jade'', ''projects'', ''alpha'', ''.claude'', ''tasks'',
                          ''tasks.json''])
      then Loaded (JObj [(''tasks'', JArr example_tasks)])
      else FileNotFoundError)"

definition example_world :: world where
  "example_world = \<lparr>files = example_files, clock = ''12:00:00''\<rparr>"

text \<open>What the gathering loop computes from the example.\<close>

definition example_stat :: stat where
  "example_stat =
     \<lparr>st_proj = example_project,
      st_counts =
        [(KStr ''pending'', 2), (KStr ''in_progress'', 1), (KStr ''completed'', 2),
         (KStr ''blocked'', 0), (KStr ''failed'', 0), (KStr ''review'', 1)],
      st_n = 6, st_done = 2, st_milestone = JStr []\<rparr>"

definition example_gathered :: gathered where
  "example_gathered =
     \<lparr>all_stats = [example_stat],
      all_in_progress = [(JStr ''alpha'', JStr ''Build'')],
      all_completed = [(JStr ''alpha'', JStr ''t3''), (JStr ''alpha'', JStr ''?'')],
      total_tasks = 6, total_done = 2\<rparr>"

text \<open>A world without any file.\<close>

definition empty_world :: world where
  "empty_world = \<lparr>files = (\<lambda>p. FileNotFoundError), clock = ''12:00:00''\<rparr>"

text \<open>
  The value of the variable \<^verbatim>\<open>filled\<close> of \<^verbatim>\<open>make_progress_bar\<close> when \<^verbatim>\<open>total != 0\<close>:
  \<^verbatim>\<open>
  pct = done / total
  filled = int(pct * width)
  \<close>
\<close>

definition bar_filled :: "int \<Rightarrow> int \<Rightarrow> int \<Rightarrow> error + int" where
  "bar_filled done tot width =
     bind (int_truediv done tot) (\<lambda>pct.
     bind (float_mul_int pct width) float_to_int)"

section \<open>Properties\<close>

subsection \<open>Exceptions and lookups\<close>

lemma bind_Inl [simp]: "bind (Inl e) f = Inl e"
  by (simp add: bind_def)

lemma bind_Inr [simp]: "bind (Inr x) f = f x"
  by (simp add: bind_def)

lemma bind_eq_Inr: "bind m f = Inr y \<longleftrightarrow> (\<exists>x. m = Inr x \<and> f x = Inr y)"
  by (cases m) simp_all

lemma py_get_obj [simp]:
  "py_get (JObj kvs) k d = Inr (case map_of kvs k of None \<Rightarrow> d | Some v \<Rightarrow> v)"
  by (simp add: py_get_def)

lemma py_get_Inr: "py_get x k d = Inr v \<Longrightarrow> \<exists>kvs. x = JObj kvs"
  by (cases x) (simp_all add: py_get_def)

lemma py_getitem_Inr:
  "py_getitem x k = Inr v \<longleftrightarrow> (\<exists>kvs. x = JObj kvs \<and> map_of kvs k = Some v)"
  by (cases x) (auto simp: py_getitem_def split: option.splits)

lemma py_hash_KStr: "py_hash s' = Inr (KStr s) \<longleftrightarrow> s' = JStr s"
  by (cases s') (simp_all add: py_hash_def)

lemma task_title_obj:
  "task_title (JObj kvs) =
     Inr (case map_of kvs ''title'' of
            Some v \<Rightarrow> v
          | None \<Rightarrow> (case map_of kvs ''id'' of Some v \<Rightarrow> v | None \<Rightarrow> JStr ''?''))"
  by (simp add: task_title_def split: option.splits)

subsection \<open>The tally of one project\<close>

lemma counts_get_set:
  "counts_get (counts_set c k v) k' d = (if k' = k then v else counts_get c k' d)"
  by (simp add: counts_get_def counts_set_def update_conv')

lemma map_of_counts_set:
  "map_of (counts_set c k v) k' = (if k' = k then Some v else map_of c k')"
  by (simp add: counts_set_def update_conv')

lemma sum_counts_set:
  "distinct (map fst c) \<Longrightarrow>
   sum_list (map snd (counts_set c k (counts_get c k 0 + 1))) = sum_list (map snd c) + 1"
proof (induction c)
  case Nil
  then show ?case by (simp add: counts_set_def counts_get_def)
next
  case (Cons a c)
  then show ?case
    by (cases a) (auto simp: counts_set_def counts_get_def)
qed

lemma distinct_counts_set:
  "distinct (map fst c) \<Longrightarrow> distinct (map fst (counts_set c k v))"
  by (simp add: counts_set_def distinct_update)

lemma nonneg_counts_set:
  "\<forall>v \<in> snd ` set c. 0 \<le> v \<Longrightarrow>
   \<forall>v \<in> snd ` set (counts_set c k (counts_get c k 0 + 1)). 0 \<le> v"
proof (induction c)
  case Nil
  then show ?case by (simp add: counts_set_def counts_get_def)
next
  case (Cons a c)
  then show ?case
    by (cases a) (auto simp: counts_set_def counts_get_def)
qed

lemma tally_ok_initial: "tally_ok initial_counts"
  by (simp add: tally_ok_def initial_counts_def)

subsection \<open>The inner loop\<close>

lemma count_task_unfold:
  assumes "count_task proj (c, g) t = Inr (c', g')"
  obtains s k ip comp where
    "py_get t ''status'' (JStr ''pending'') = Inr s"
    "py_hash s = Inr k"
    "(if s = JStr ''in_progress'' then append_entry proj t (all_in_progress g)
      else Inr (all_in_progress g)) = Inr ip"
    "(if s = JStr ''completed'' then append_entry proj t (all_completed g)
      else Inr (all_completed g)) = Inr comp"
    "c' = counts_set c k (counts_get c k 0 + 1)"
    "g' = g\<lparr>all_in_progress := ip, all_completed := comp\<rparr>"
  using assms unfolding count_task_def bind_eq_Inr fst_conv snd_conv prod.inject sum.inject
  by blast

lemma count_task_frame:
  assumes "count_task proj (c, g) t = Inr (c', g')"
  shows "all_stats g' = all_stats g" "total_tasks g' = total_tasks g"
    "total_done g' = total_done g"
  using assms by (auto simp: count_task_def bind_eq_Inr)

lemma append_entry_Inr:
  "append_entry proj t xs = Inr ys \<Longrightarrow> ys = xs @ [entry_of proj t]"
  by (auto simp: append_entry_def entry_of_def bind_eq_Inr)

lemma entries_with_Nil [simp]: "entries_with s proj [] = []"
  by (simp add: entries_with_def)

lemma entries_with_Cons:
  "entries_with s proj (t # ts) =
     (if has_status s t then [entry_of proj t] else []) @ entries_with s proj ts"
  by (simp add: entries_with_def)

lemma entries_with_split:
  "entries_with s proj (t # ts) = entries_with s proj [t] @ entries_with s proj ts"
  by (simp add: entries_with_def)

lemma count_task_lists:
  assumes "count_task proj (c, g) t = Inr (c', g')"
  shows "all_in_progress g' = all_in_progress g @ entries_with ''in_progress'' proj [t]"
    and "all_completed g' = all_completed g @ entries_with ''completed'' proj [t]"
proof -
  from assms obtain s k ip comp where
    s: "py_get t ''status'' (JStr ''pending'') = Inr s" and
    "py_hash s = Inr k" and
    ip: "(if s = JStr ''in_progress'' then append_entry proj t (all_in_progress g)
      else Inr (all_in_progress g)) = Inr ip" and
    comp: "(if s = JStr ''completed'' then append_entry proj t (all_completed g)
      else Inr (all_completed g)) = Inr comp" and
    "c' = counts_set c k (counts_get c k 0 + 1)" and
    g': "g' = g\<lparr>all_in_progress := ip, all_completed := comp\<rparr>"
    by (rule count_task_unfold)
  from ip have "ip = all_in_progress g @ entries_with ''in_progress'' proj [t]"
    by (cases "s = JStr ''in_progress''")
       (simp_all add: entries_with_Cons has_status_def s append_entry_Inr)
  with g' show "all_in_progress g' = all_in_progress g @ entries_with ''in_progress'' proj [t]"
    by simp
  from comp have "comp = all_completed g @ entries_with ''completed'' proj [t]"
    by (cases "s = JStr ''completed''")
       (simp_all add: entries_with_Cons has_status_def s append_entry_Inr)
  with g' show "all_completed g' = all_completed g @ entries_with ''completed'' proj [t]"
    by simp
qed

lemma count_tasks_lists:
  "count_tasks proj (c, g) ts = Inr (c', g') \<Longrightarrow>
     all_in_progress g' = all_in_progress g @ entries_with ''in_progress'' proj ts \<and>
     all_completed g' = all_completed g @ entries_with ''completed'' proj ts \<and>
     all_stats g' = all_stats g \<and> total_tasks g' = total_tasks g \<and>
     total_done g' = total_done g"
proof (induction ts arbitrary: c g)
  case Nil
  then show ?case by simp
next
  case (Cons t ts)
  from Cons.prems obtain c1 g1 where
    one: "count_task proj (c, g) t = Inr (c1, g1)" and
    rest: "count_tasks proj (c1, g1) ts = Inr (c', g')"
    by (auto simp: bind_eq_Inr)
  note IH = Cons.IH [OF rest]
  from one IH show ?case
    by (simp add: count_task_lists count_task_frame entries_with_split [of _ _ t ts])
qed

lemma count_task_tally:
  assumes "count_task proj (c, g) t = Inr (c', g')" and "tally_ok c"
  shows "tally_ok c'" and "sum_list (map snd c') = sum_list (map snd c) + 1"
    and "counts_get c' (KStr s) 0 = counts_get c (KStr s) 0 + (if has_status s t then 1 else 0)"
    and "map_of c k \<noteq> None \<Longrightarrow> map_of c' k \<noteq> None"
proof -
  from assms(1) obtain s' k' ip comp where
    s: "py_get t ''status'' (JStr ''pending'') = Inr s'" and
    k: "py_hash s' = Inr k'" and
    "(if s' = JStr ''in_progress'' then append_entry proj t (all_in_progress g)
      else Inr (all_in_progress g)) = Inr ip" and
    "(if s' = JStr ''completed'' then append_entry proj t (all_completed g)
      else Inr (all_completed g)) = Inr comp" and
    c': "c' = counts_set c k' (counts_get c k' 0 + 1)" and
    "g' = g\<lparr>all_in_progress := ip, all_completed := comp\<rparr>"
    by (rule count_task_unfold)
  from assms(2) have d: "distinct (map fst c)" and nn: "\<forall>v \<in> snd ` set c. 0 \<le> v"
    by (simp_all add: tally_ok_def)
  from d have "distinct (map fst c')"
    unfolding c' by (rule distinct_counts_set)
  moreover from nn have "\<forall>v \<in> snd ` set c'. 0 \<le> v"
    unfolding c' by (rule nonneg_counts_set)
  ultimately show "tally_ok c'"
    by (simp add: tally_ok_def)
  from d show "sum_list (map snd c') = sum_list (map snd c) + 1"
    unfolding c' by (rule sum_counts_set)
  have "k' = KStr s \<longleftrightarrow> s' = JStr s"
    using k py_hash_KStr [of s' s] by auto
  also have "\<dots> \<longleftrightarrow> has_status s t"
    by (simp add: has_status_def s)
  finally have "k' = KStr s \<longleftrightarrow> has_status s t" .
  then show "counts_get c' (KStr s) 0 =
      counts_get c (KStr s) 0 + (if has_status s t then 1 else 0)"
    unfolding c' counts_get_set by (cases "has_status s t") auto
  show "map_of c k \<noteq> None \<Longrightarrow> map_of c' k \<noteq> None"
    unfolding c' by (simp add: map_of_counts_set)
qed
lemma count_tasks_tally:
  "count_tasks proj (c, g) ts = Inr (c', g') \<Longrightarrow> tally_ok c \<Longrightarrow>
     tally_ok c' \<and>
     sum_list (map snd c') = sum_list (map snd c) + int (length ts) \<and>
     counts_get c' (KStr s) 0 = counts_get c (KStr s) 0 + int (length (filter (has_status s) ts)) \<and>
     (map_of c k \<noteq> None \<longrightarrow> map_of c' k \<noteq> None)"
proof (induction ts arbitrary: c g)
  case Nil
  then show ?case by simp
next
  case (Cons t ts)
  from Cons.prems(1) obtain c1 g1 where
    one: "count_task proj (c, g) t = Inr (c1, g1)" and
    rest: "count_tasks proj (c1, g1) ts = Inr (c', g')"
    by (auto simp: bind_eq_Inr)
  note first = count_task_tally [OF one Cons.prems(2)]
  note IH = Cons.IH [OF rest first(1)]
  from IH first(2) first(3) [of s] first(4) [of k] show ?case
    by auto
qed

subsection \<open>The outer loop\<close>

lemma py_len_iter: "py_iter x = Inr xs \<Longrightarrow> py_len x = Inr (int (length xs))"
  by (cases x) (auto simp: py_iter_def py_len_def)

lemma counts_getitem_eq:
  "counts_getitem c k = Inr v \<longleftrightarrow> map_of c k = Some v"
  by (simp add: counts_getitem_def split: option.splits)

lemma counts_getitem_get:
  "map_of c k \<noteq> None \<Longrightarrow> counts_getitem c k = Inr (counts_get c k 0)"
  by (auto simp: counts_getitem_def counts_get_def)

lemma map_of_initial_counts:
  "k \<in> {''pending'', ''in_progress'', ''completed'', ''blocked'', ''failed''} \<Longrightarrow>
   map_of initial_counts (KStr k) = Some 0"
  by (auto simp: initial_counts_def)

lemma counts_get_initial [simp]: "counts_get initial_counts k 0 = 0"
  by (simp add: counts_get_def initial_counts_def)

lemma sum_initial_counts [simp]: "sum_list (map snd initial_counts) = 0"
  by (simp add: initial_counts_def)

lemma process_project_unfold:
  assumes "process_project home w g proj = Inr g'"
  obtains ts c g1 milestone where
    "project_tasks home w proj = Inr ts"
    "count_tasks proj (initial_counts, g) ts = Inr (c, g1)"
    "counts_getitem c (KStr ''completed'') = Inr (counts_get c (KStr ''completed'') 0)"
    "g' = g1\<lparr>all_stats := all_stats g1 @
            [\<lparr>st_proj = proj, st_counts = c, st_n = int (length ts),
              st_done = counts_get c (KStr ''completed'') 0, st_milestone = milestone\<rparr>],
          total_tasks := total_tasks g1 + int (length ts),
          total_done := total_done g1 + counts_get c (KStr ''completed'') 0\<rparr>"
proof -
  from assms obtain project_path data tasks ts cg n dn m milestone where
    a: "py_getitem proj ''path'' = Inr project_path"
      "load_tasks home w project_path = Inr data"
      "py_get data ''tasks'' (JArr []) = Inr tasks"
      "py_iter tasks = Inr ts"
      "count_tasks proj (initial_counts, g) ts = Inr cg"
      "py_len tasks = Inr n"
      "counts_getitem (fst cg) (KStr ''completed'') = Inr dn"
      "py_get data ''milestone'' (JObj []) = Inr m"
      "py_get m ''name'' (JStr []) = Inr milestone"
      "g' = (snd cg)\<lparr>all_stats := all_stats (snd cg) @
            [\<lparr>st_proj = proj, st_counts = fst cg, st_n = n, st_done = dn,
              st_milestone = milestone\<rparr>],
          total_tasks := total_tasks (snd cg) + n,
          total_done := total_done (snd cg) + dn\<rparr>"
    unfolding process_project_def bind_eq_Inr sum.inject by blast
  from a(1-4) have pt: "project_tasks home w proj = Inr ts"
    by (simp add: project_tasks_def)
  from a(4,6) have n: "n = int (length ts)"
    by (simp add: py_len_iter)
  from a(7) have dn: "dn = counts_get (fst cg) (KStr ''completed'') 0"
    by (simp add: counts_getitem_eq counts_get_def)
  from a(5) have ct: "count_tasks proj (initial_counts, g) ts = Inr (fst cg, snd cg)"
    by simp
  show thesis
    using that [OF pt ct] a(7) a(10) unfolding n dn by blast
qed

lemma tally_sum_nonneg: "tally_ok c \<Longrightarrow> 0 \<le> sum_list (map snd c)"
  by (rule sum_list_nonneg) (auto simp: tally_ok_def)

lemma tally_member_bounds:
  "tally_ok c \<Longrightarrow> map_of c k = Some v \<Longrightarrow> 0 \<le> v \<and> v \<le> sum_list (map snd c)"
proof (induction c)
  case Nil
  then show ?case by simp
next
  case (Cons a c)
  obtain k' v' where a: "a = (k', v')" by (cases a)
  from Cons.prems(1) have ok: "tally_ok c" and v': "0 \<le> v'"
    by (auto simp: tally_ok_def a)
  from ok have rest: "0 \<le> sum_list (map snd c)"
    by (rule tally_sum_nonneg)
  show ?case
  proof (cases "k = k'")
    case True
    with Cons.prems(2) have "v = v'" by (simp add: a)
    with v' rest show ?thesis by (simp add: a)
  next
    case False
    with Cons.prems(2) have "map_of c k = Some v" by (simp add: a)
    from Cons.IH [OF ok this] v' show ?thesis by (simp add: a)
  qed
qed

lemma counts_get_bounds:
  assumes "tally_ok c"
  shows "0 \<le> counts_get c k 0" and "counts_get c k 0 \<le> sum_list (map snd c)"
proof -
  have "0 \<le> sum_list (map snd c)"
    using assms by (rule tally_sum_nonneg)
  then show "0 \<le> counts_get c k 0" and "counts_get c k 0 \<le> sum_list (map snd c)"
    using tally_member_bounds [OF assms, of k]
    by (auto simp: counts_get_def split: option.splits)
qed

lemma stat_ok_bounds:
  "stat_ok st \<Longrightarrow> 0 \<le> st_done st \<and> st_done st \<le> st_n st"
  using counts_get_bounds [of "st_counts st" "KStr ''completed''"]
  by (simp add: stat_ok_def)

lemma process_project_result:
  assumes "process_project home w g proj = Inr g'"
  obtains st ts where
    "project_tasks home w proj = Inr ts"
    "all_stats g' = all_stats g @ [st]"
    "st_proj st = proj"
    "stat_ok st"
    "st_n st = int (length ts)"
    "st_done st = int (length (filter (has_status ''completed'') ts))"
    "all_in_progress g' = all_in_progress g @ entries_with ''in_progress'' proj ts"
    "all_completed g' = all_completed g @ entries_with ''completed'' proj ts"
    "total_tasks g' = total_tasks g + st_n st"
    "total_done g' = total_done g + st_done st"
proof -
  from assms obtain ts c g1 milestone where
    pt: "project_tasks home w proj = Inr ts" and
    ct: "count_tasks proj (initial_counts, g) ts = Inr (c, g1)" and
    g': "g' = g1\<lparr>all_stats := all_stats g1 @
            [\<lparr>st_proj = proj, st_counts = c, st_n = int (length ts),
              st_done = counts_get c (KStr ''completed'') 0, st_milestone = milestone\<rparr>],
          total_tasks := total_tasks g1 + int (length ts),
          total_done := total_done g1 + counts_get c (KStr ''completed'') 0\<rparr>"
    by (rule process_project_unfold)
  define st where "st = \<lparr>st_proj = proj, st_counts = c, st_n = int (length ts),
              st_done = counts_get c (KStr ''completed'') 0, st_milestone = milestone\<rparr>"
  note lists = count_tasks_lists [OF ct]
  note tally = count_tasks_tally [OF ct tally_ok_initial]
  have keys: "\<forall>k \<in> set (map fst initial_counts). map_of c k \<noteq> None"
  proof
    fix k assume "k \<in> set (map fst initial_counts)"
    then have "map_of initial_counts k \<noteq> None"
      by (auto simp: initial_counts_def)
    with tally [of _ k] show "map_of c k \<noteq> None" by simp
  qed
  have ok: "stat_ok st"
    using tally [of "''completed''" KNone] keys by (simp add: stat_ok_def st_def)
  have dn: "st_done st = int (length (filter (has_status ''completed'') ts))"
    using tally [of "''completed''" KNone] by (simp add: st_def)
  show thesis
  proof (rule that [OF pt _ _ ok _ dn])
    show "all_stats g' = all_stats g @ [st]"
      using lists by (simp add: g' st_def)
    show "st_proj st = proj" by (simp add: st_def)
    show "st_n st = int (length ts)" by (simp add: st_def)
    show "all_in_progress g' = all_in_progress g @ entries_with ''in_progress'' proj ts"
      using lists by (simp add: g')
    show "all_completed g' = all_completed g @ entries_with ''completed'' proj ts"
      using lists by (simp add: g')
    show "total_tasks g' = total_tasks g + st_n st"
      using lists by (simp add: g' st_def)
    show "total_done g' = total_done g + st_done st"
      using lists by (simp add: g' st_def)
  qed
qed

lemma encountered_Nil [simp]: "encountered s home w [] = []"
  by (simp add: encountered_def)

lemma encountered_Cons:
  "encountered s home w (proj # projs) =
     entries_with s proj (tasks_or_none home w proj) @ encountered s home w projs"
  by (simp add: encountered_def)

lemma process_projects_result:
  "process_projects home w g projs = Inr g' \<Longrightarrow>
     \<exists>stats. all_stats g' = all_stats g @ stats \<and>
       map st_proj stats = projs \<and>
       (\<forall>st \<in> set stats. stat_ok st) \<and>
       map st_n stats = map (\<lambda>p. int (length (tasks_or_none home w p))) projs \<and>
       map st_done stats =
         map (\<lambda>p. int (length (filter (has_status ''completed'') (tasks_or_none home w p)))) projs \<and>
       all_in_progress g' = all_in_progress g @ encountered ''in_progress'' home w projs \<and>
       all_completed g' = all_completed g @ encountered ''completed'' home w projs \<and>
       total_tasks g' = total_tasks g + sum_list (map st_n stats) \<and>
       total_done g' = total_done g + sum_list (map st_done stats)"
proof (induction projs arbitrary: g)
  case Nil
  then show ?case by simp
next
  case (Cons proj projs)
  from Cons.prems obtain g1 where
    one: "process_project home w g proj = Inr g1" and
    rest: "process_projects home w g1 projs = Inr g'"
    by (auto simp: bind_eq_Inr)
  from one obtain st ts where
    pt: "project_tasks home w proj = Inr ts" and
    st: "all_stats g1 = all_stats g @ [st]" "st_proj st = proj" "stat_ok st"
      "st_n st = int (length ts)"
      "st_done st = int (length (filter (has_status ''completed'') ts))" and
    lists: "all_in_progress g1 = all_in_progress g @ entries_with ''in_progress'' proj ts"
      "all_completed g1 = all_completed g @ entries_with ''completed'' proj ts" and
    totals: "total_tasks g1 = total_tasks g + st_n st"
      "total_done g1 = total_done g + st_done st"
    by (rule process_project_result)
  from pt have ts: "tasks_or_none home w proj = ts"
    by (simp add: tasks_or_none_def)
  from Cons.IH [OF rest] obtain stats where
    IH: "all_stats g' = all_stats g1 @ stats"
      "map st_proj stats = projs"
      "\<forall>st \<in> set stats. stat_ok st"
      "map st_n stats = map (\<lambda>p. int (length (tasks_or_none home w p))) projs"
      "map st_done stats =
         map (\<lambda>p. int (length (filter (has_status ''completed'') (tasks_or_none home w p)))) projs"
      "all_in_progress g' = all_in_progress g1 @ encountered ''in_progress'' home w projs"
      "all_completed g' = all_completed g1 @ encountered ''completed'' home w projs"
      "total_tasks g' = total_tasks g1 + sum_list (map st_n stats)"
      "total_done g' = total_done g1 + sum_list (map st_done stats)"
    by blast
  show ?case
  proof (intro exI [of _ "st # stats"] conjI)
    show "all_stats g' = all_stats g @ st # stats"
      by (simp add: IH(1) st(1))
    show "map st_proj (st # stats) = proj # projs"
      by (simp add: IH(2) st(2))
    show "\<forall>st \<in> set (st # stats). stat_ok st"
      using IH(3) st(3) by simp
    show "map st_n (st # stats) =
        map (\<lambda>p. int (length (tasks_or_none home w p))) (proj # projs)"
      by (simp add: IH(4) st(4) ts)
    show "map st_done (st # stats) =
        map (\<lambda>p. int (length (filter (has_status ''completed'') (tasks_or_none home w p))))
          (proj # projs)"
      by (simp add: IH(5) st(5) ts)
    show "all_in_progress g' = all_in_progress g @ encountered ''in_progress'' home w (proj # projs)"
      by (simp add: IH(6) lists(1) encountered_Cons ts)
    show "all_completed g' = all_completed g @ encountered ''completed'' home w (proj # projs)"
      by (simp add: IH(7) lists(2) encountered_Cons ts)
    show "total_tasks g' = total_tasks g + sum_list (map st_n (st # stats))"
      by (simp add: IH(8) totals(1))
    show "total_done g' = total_done g + sum_list (map st_done (st # stats))"
      by (simp add: IH(9) totals(2))
  qed
qed

lemma gather_result:
  assumes "gather home w registry = Inr g"
  obtains projs where
    "registry_projects registry = Inr projs"
    "map st_proj (all_stats g) = projs"
    "\<forall>st \<in> set (all_stats g). stat_ok st"
    "map st_n (all_stats g) = map (\<lambda>p. int (length (tasks_or_none home w p))) projs"
    "map st_done (all_stats g) =
       map (\<lambda>p. int (length (filter (has_status ''completed'') (tasks_or_none home w p)))) projs"
    "all_in_progress g = encountered ''in_progress'' home w projs"
    "all_completed g = encountered ''completed'' home w projs"
    "total_tasks g = sum_list (map st_n (all_stats g))"
    "total_done g = sum_list (map st_done (all_stats g))"
proof -
  from assms obtain projects projs where
    a: "py_get registry ''projects'' (JArr []) = Inr projects"
      "py_iter projects = Inr projs"
      "process_projects home w empty_gathered projs = Inr g"
    unfolding gather_def bind_eq_Inr by blast
  from a(1,2) have rp: "registry_projects registry = Inr projs"
    by (simp add: registry_projects_def)
  from process_projects_result [OF a(3)] obtain stats where
    r: "all_stats g = all_stats empty_gathered @ stats"
      "map st_proj stats = projs"
      "\<forall>st \<in> set stats. stat_ok st"
      "map st_n stats = map (\<lambda>p. int (length (tasks_or_none home w p))) projs"
      "map st_done stats =
         map (\<lambda>p. int (length (filter (has_status ''completed'') (tasks_or_none home w p)))) projs"
      "all_in_progress g = all_in_progress empty_gathered @ encountered ''in_progress'' home w projs"
      "all_completed g = all_completed empty_gathered @ encountered ''completed'' home w projs"
      "total_tasks g = total_tasks empty_gathered + sum_list (map st_n stats)"
      "total_done g = total_done empty_gathered + sum_list (map st_done stats)"
    by blast
  from r(1) have stats: "stats = all_stats g"
    by (simp add: empty_gathered_def)
  show thesis
    using that [OF rp] r(2-9) unfolding stats by (simp add: empty_gathered_def)
qed

subsection \<open>The example inputs, evaluated\<close>

lemma tasks_file_example:
  "tasks_file example_home ''alpha'' =
     (''/'', [''home'', ''jade'', ''projects'', ''alpha'', ''.claude'', ''tasks'', ''tasks.json''])"
  by (simp add: tasks_file_def PROJECTS_ROOT_def path_join_def parse_path_def example_home_def)

lemma PROJECTS_JSON_example:
  "PROJECTS_JSON example_home = (''/'', [''home'', ''jade'', ''.jade'', ''projects.json''])"
  by (simp add: PROJECTS_JSON_def path_join_def parse_path_def example_home_def)

lemma str_int_small:
  "str_int 0 = ''0''" "str_int 1 = ''1''" "str_int 2 = ''2''" "str_int 6 = ''6''"
  by (simp_all add: str_int_def str_nat.simps digit_char_def)

lemma count_tasks_example:
  "count_tasks example_project (initial_counts, empty_gathered) example_tasks =
     Inr ([(KStr ''pending'', 2), (KStr ''in_progress'', 1), (KStr ''completed'', 2),
           (KStr ''blocked'', 0), (KStr ''failed'', 0), (KStr ''review'', 1)],
          \<lparr>all_stats = [], all_in_progress = [(JStr ''alpha'', JStr ''Build'')],
           all_completed = [(JStr ''alpha'', JStr ''t3''), (JStr ''alpha'', JStr ''?'')],
           total_tasks = 0, total_done = 0\<rparr>)"
  by (simp add: example_tasks_def example_project_def count_task_def initial_counts_def
      empty_gathered_def py_hash_def counts_set_def counts_get_def append_entry_def
      py_getitem_def task_title_def)

lemma project_tasks_example:
  "project_tasks example_home example_world example_project = Inr example_tasks"
  by (simp add: project_tasks_def example_project_def py_getitem_def load_tasks_def
      tasks_file_example example_world_def example_files_def py_iter_def)

lemma process_project_eval:
  assumes "py_getitem proj ''path'' = Inr project_path"
    and "load_tasks home w project_path = Inr data"
    and "py_get data ''tasks'' (JArr []) = Inr tasks"
    and "py_iter tasks = Inr ts"
    and "count_tasks proj (initial_counts, g) ts = Inr (c, g1)"
    and "counts_getitem c (KStr ''completed'') = Inr dn"
    and "py_get data ''milestone'' (JObj []) = Inr m"
    and "py_get m ''name'' (JStr []) = Inr milestone"
  shows "process_project home w g proj =
     Inr (g1\<lparr>all_stats := all_stats g1 @
            [\<lparr>st_proj = proj, st_counts = c, st_n = int (length ts), st_done = dn,
              st_milestone = milestone\<rparr>],
          total_tasks := total_tasks g1 + int (length ts),
          total_done := total_done g1 + dn\<rparr>)"
  by (simp add: process_project_def assms py_len_iter)

lemma process_project_example:
  "process_project example_home example_world empty_gathered example_project =
     Inr example_gathered"
proof -
  have 1: "py_getitem example_project ''path'' = Inr (JStr ''alpha'')"
    by (simp add: py_getitem_def example_project_def)
  have 2: "load_tasks example_home example_world (JStr ''alpha'') =
      Inr (JObj [(''tasks'', JArr example_tasks)])"
    by (simp add: load_tasks_def tasks_file_example example_world_def example_files_def)
  have 3: "py_get (JObj [(''tasks'', JArr example_tasks)]) ''tasks'' (JArr []) =
      Inr (JArr example_tasks)"
    by simp
  have 4: "py_iter (JArr example_tasks) = Inr example_tasks"
    by (simp add: py_iter_def)
  have 6: "counts_getitem [(KStr ''pending'', 2), (KStr ''in_progress'', 1),
      (KStr ''completed'', 2), (KStr ''blocked'', 0), (KStr ''failed'', 0),
      (KStr ''review'', 1)] (KStr ''completed'') = Inr 2"
    by (simp add: counts_getitem_def)
  have 7: "py_get (JObj [(''tasks'', JArr example_tasks)]) ''milestone'' (JObj []) =
      Inr (JObj [])"
    by simp
  have 8: "py_get (JObj []) ''name'' (JStr []) = Inr (JStr [])"
    by simp
  have len: "length example_tasks = 6"
    by (simp add: example_tasks_def)
  show ?thesis
    unfolding process_project_eval [OF 1 2 3 4 count_tasks_example 6 7 8]
    by (simp add: len example_gathered_def example_stat_def)
qed

lemma gather_example:
  "gather example_home example_world example_registry = Inr example_gathered"
  by (simp add: gather_def example_registry_def py_iter_def process_project_example)

subsection \<open>Facts about every entry of the statistics\<close>

lemma has_status_obj:
  "has_status s (JObj kvs) \<longleftrightarrow>
     (case map_of kvs ''status'' of None \<Rightarrow> s = ''pending'' | Some v \<Rightarrow> v = JStr s)"
  by (auto simp: has_status_def split: option.splits)

lemma process_project_status_counts:
  assumes "process_project home w g proj = Inr g'"
  shows "\<exists>st ts. all_stats g' = all_stats g @ [st] \<and> project_tasks home w (st_proj st) = Inr ts \<and>
      st_n st = int (length ts) \<and>
      sum_list (map snd (st_counts st)) = int (length ts) \<and>
      (\<forall>s. counts_get (st_counts st) (KStr s) 0 = int (length (filter (has_status s) ts)))"
proof -
  from assms obtain ts c g1 milestone where
    pt: "project_tasks home w proj = Inr ts" and
    ct: "count_tasks proj (initial_counts, g) ts = Inr (c, g1)" and
    g': "g' = g1\<lparr>all_stats := all_stats g1 @
            [\<lparr>st_proj = proj, st_counts = c, st_n = int (length ts),
              st_done = counts_get c (KStr ''completed'') 0, st_milestone = milestone\<rparr>],
          total_tasks := total_tasks g1 + int (length ts),
          total_done := total_done g1 + counts_get c (KStr ''completed'') 0\<rparr>"
    by (rule process_project_unfold)
  note lists = count_tasks_lists [OF ct]
  have sum: "sum_list (map snd c) = int (length ts)"
    using count_tasks_tally [OF ct tally_ok_initial, of "''pending''" KNone] by simp
  have each: "counts_get c (KStr s) 0 = int (length (filter (has_status s) ts))" for s
    using count_tasks_tally [OF ct tally_ok_initial, of s KNone] by simp
  show ?thesis
    using lists pt sum each by (simp add: g')
qed

lemma process_projects_stats_all:
  assumes "process_projects home w g projs = Inr g'"
    and "\<forall>st \<in> set (all_stats g). P st"
    and step: "\<And>g g' proj. process_project home w g proj = Inr g' \<Longrightarrow>
      \<exists>st. all_stats g' = all_stats g @ [st] \<and> P st"
  shows "\<forall>st \<in> set (all_stats g'). P st"
  using assms(1,2)
proof (induction projs arbitrary: g)
  case Nil
  then show ?case by simp
next
  case (Cons proj projs)
  from Cons.prems(1) obtain g1 where
    one: "process_project home w g proj = Inr g1" and
    rest: "process_projects home w g1 projs = Inr g'"
    by (auto simp: bind_eq_Inr)
  from step [OF one] Cons.prems(2) have "\<forall>st \<in> set (all_stats g1). P st"
    by auto
  with rest show ?case by (rule Cons.IH)
qed

lemma gather_stats_all:
  assumes "gather home w registry = Inr g"
    and step: "\<And>g g' proj. process_project home w g proj = Inr g' \<Longrightarrow>
      \<exists>st. all_stats g' = all_stats g @ [st] \<and> P st"
  shows "\<forall>st \<in> set (all_stats g). P st"
proof -
  from assms(1) obtain projs where
    "process_projects home w empty_gathered projs = Inr g"
    unfolding gather_def bind_eq_Inr by blast
  then show ?thesis
    by (rule process_projects_stats_all) (simp add: empty_gathered_def, rule step)
qed

subsection \<open>The display\<close>

lemma length_entries_with:
  "length (entries_with s proj ts) = length (filter (has_status s) ts)"
  by (simp add: entries_with_def)

lemma length_encountered:
  "length (encountered s home w projs) =
     sum_list (map (\<lambda>p. length (filter (has_status s) (tasks_or_none home w p))) projs)"
  by (induction projs) (simp_all add: encountered_Cons length_entries_with)

lemma build_display_unfold:
  assumes "build_display home w registry = Inr d"
  obtains g where "gather home w registry = Inr g" and "render w g = Inr d"
  using assms unfolding build_display_def bind_eq_Inr by blast

lemma render_panels:
  assumes "render w g = Inr d"
  shows "ip_panel d = in_progress_panel g" and "rc_panel d = completed_panel g"
    and "footer d = footer_line w"
  using assms by (auto simp: render_def bind_eq_Inr)

subsection \<open>The pairs of the two lists\<close>

lemma entry_of_obj:
  "entry_of proj (JObj kvs) =
     ((case py_getitem proj ''name'' of Inr name \<Rightarrow> name | Inl e \<Rightarrow> JNull),
      (case map_of kvs ''title'' of
         Some v \<Rightarrow> v
       | None \<Rightarrow> (case map_of kvs ''id'' of Some v \<Rightarrow> v | None \<Rightarrow> JStr ''?'')))"
  by (simp add: entry_of_def task_title_obj)

lemma has_status_Inr: "has_status s t \<Longrightarrow> \<exists>kvs. t = JObj kvs"
  unfolding has_status_def by (rule py_get_Inr)

lemma append_entry_name:
  "append_entry proj t xs = Inr ys \<Longrightarrow> \<exists>name. py_getitem proj ''name'' = Inr name"
  by (auto simp: append_entry_def bind_eq_Inr)

lemma count_task_name:
  assumes "count_task proj (c, g) t = Inr (c', g')"
    and "has_status ''in_progress'' t \<or> has_status ''completed'' t"
  shows "\<exists>name. py_getitem proj ''name'' = Inr name"
proof -
  from assms(1) obtain s k ip comp where
    s: "py_get t ''status'' (JStr ''pending'') = Inr s" and
    "py_hash s = Inr k" and
    ip: "(if s = JStr ''in_progress'' then append_entry proj t (all_in_progress g)
      else Inr (all_in_progress g)) = Inr ip" and
    comp: "(if s = JStr ''completed'' then append_entry proj t (all_completed g)
      else Inr (all_completed g)) = Inr comp" and
    "c' = counts_set c k (counts_get c k 0 + 1)" and
    "g' = g\<lparr>all_in_progress := ip, all_completed := comp\<rparr>"
    by (rule count_task_unfold)
  from assms(2) show ?thesis
  proof
    assume "has_status ''in_progress'' t"
    with s have "s = JStr ''in_progress''" by (simp add: has_status_def)
    with ip show ?thesis by (simp add: append_entry_name)
  next
    assume "has_status ''completed'' t"
    with s have "s = JStr ''completed''" by (simp add: has_status_def)
    with comp show ?thesis by (simp add: append_entry_name)
  qed
qed

lemma count_tasks_name:
  "count_tasks proj (c, g) ts = Inr (c', g') \<Longrightarrow> t \<in> set ts \<Longrightarrow>
   has_status ''in_progress'' t \<or> has_status ''completed'' t \<Longrightarrow>
   \<exists>name. py_getitem proj ''name'' = Inr name"
proof (induction ts arbitrary: c g)
  case Nil
  then show ?case by simp
next
  case (Cons a ts)
  from Cons.prems(1) obtain c1 g1 where
    one: "count_task proj (c, g) a = Inr (c1, g1)" and
    rest: "count_tasks proj (c1, g1) ts = Inr (c', g')"
    by (auto simp: bind_eq_Inr)
  show ?case
  proof (cases "t = a")
    case True
    with one Cons.prems(3) show ?thesis by (simp add: count_task_name)
  next
    case False
    with Cons.prems(2) have "t \<in> set ts" by simp
    from Cons.IH [OF rest this Cons.prems(3)] show ?thesis .
  qed
qed

lemma process_project_name:
  assumes "process_project home w g proj = Inr g'"
    and "t \<in> set (tasks_or_none home w proj)"
    and "has_status ''in_progress'' t \<or> has_status ''completed'' t"
  shows "\<exists>name. py_getitem proj ''name'' = Inr name"
proof -
  from assms(1) obtain ts c g1 where
    pt: "project_tasks home w proj = Inr ts" and
    ct: "count_tasks proj (initial_counts, g) ts = Inr (c, g1)"
    by (rule process_project_unfold)
  from pt assms(2) have "t \<in> set ts"
    by (simp add: tasks_or_none_def)
  from count_tasks_name [OF ct this assms(3)] show ?thesis .
qed

lemma process_projects_name:
  "process_projects home w g projs = Inr g' \<Longrightarrow> proj \<in> set projs \<Longrightarrow>
   t \<in> set (tasks_or_none home w proj) \<Longrightarrow>
   has_status ''in_progress'' t \<or> has_status ''completed'' t \<Longrightarrow>
   \<exists>name. py_getitem proj ''name'' = Inr name"
proof (induction projs arbitrary: g)
  case Nil
  then show ?case by simp
next
  case (Cons a projs)
  from Cons.prems(1) obtain g1 where
    one: "process_project home w g a = Inr g1" and
    rest: "process_projects home w g1 projs = Inr g'"
    by (auto simp: bind_eq_Inr)
  show ?case
  proof (cases "proj = a")
    case True
    with one Cons.prems(3,4) show ?thesis by (simp add: process_project_name)
  next
    case False
    with Cons.prems(2) have "proj \<in> set projs" by simp
    from Cons.IH [OF rest this Cons.prems(3,4)] show ?thesis .
  qed
qed

lemma encountered_member:
  assumes "e \<in> set (encountered s home w projs)"
  obtains proj kvs where "proj \<in> set projs"
    and "JObj kvs \<in> set (tasks_or_none home w proj)"
    and "has_status s (JObj kvs)"
    and "e = entry_of proj (JObj kvs)"
proof -
  from assms obtain proj t where
    p: "proj \<in> set projs" and t: "t \<in> set (tasks_or_none home w proj)" and
    hs: "has_status s t" and e: "e = entry_of proj t"
    by (auto simp: encountered_def entries_with_def)
  from hs obtain kvs where "t = JObj kvs"
    using has_status_Inr by blast
  with p t hs e show thesis
    by (auto intro: that)
qed

lemma gather_entry:
  assumes "gather home w registry = Inr g"
    and "e \<in> set (encountered s home w projs)"
    and "registry_projects registry = Inr projs"
    and "s = ''in_progress'' \<or> s = ''completed''"
  shows "\<exists>proj kvs. JObj kvs \<in> set (tasks_or_none home w proj) \<and>
      py_getitem proj ''name'' = Inr (fst e) \<and> task_title (JObj kvs) = Inr (snd e)"
proof -
  from assms(2) obtain proj kvs where
    p: "proj \<in> set projs" and t: "JObj kvs \<in> set (tasks_or_none home w proj)" and
    hs: "has_status s (JObj kvs)" and e: "e = entry_of proj (JObj kvs)"
    by (rule encountered_member)
  from assms(1,3) have "process_projects home w empty_gathered projs = Inr g"
    by (auto simp: gather_def registry_projects_def bind_eq_Inr)
  from process_projects_name [OF this p t] hs assms(4)
  obtain name where name: "py_getitem proj ''name'' = Inr name"
    by blast
  from name have "py_getitem proj ''name'' = Inr (fst e)"
    by (simp add: e entry_of_def)
  moreover have "task_title (JObj kvs) = Inr (snd e)"
    by (simp add: e entry_of_def task_title_obj)
  ultimately show ?thesis
    using t by blast
qed

subsection \<open>Missing and unparsable files\<close>

lemma str_repeat_dash_20: "str_repeat ''-'' 20 = ''--------------------''"
  by (simp add: str_repeat_def eval_nat_numeral)

lemma make_progress_bar_zero_total:
  "make_progress_bar done 0 20 = Inr ''[dim]--------------------[/]  --''"
  by (simp add: make_progress_bar_def str_repeat_dash_20)

lemma counts_getitem_initial:
  "counts_getitem initial_counts (KStr ''pending'') = Inr 0"
  "counts_getitem initial_counts (KStr ''in_progress'') = Inr 0"
  "counts_getitem initial_counts (KStr ''completed'') = Inr 0"
  "counts_getitem initial_counts (KStr ''blocked'') = Inr 0"
  "counts_getitem initial_counts (KStr ''failed'') = Inr 0"
  by (simp_all add: counts_getitem_def initial_counts_def)

lemma load_registry_missing:
  assumes "files w (PROJECTS_JSON home) = FileNotFoundError \<or>
    files w (PROJECTS_JSON home) = JSONDecodeError"
  shows "load_registry home w = Inr (empty_registry home)"
  using assms by (auto simp: load_registry_def)

lemma load_tasks_missing:
  assumes "files w (tasks_file home p) = FileNotFoundError \<or>
    files w (tasks_file home p) = JSONDecodeError"
  shows "load_tasks home w (JStr p) = Inr (JObj [(''tasks'', JArr [])])"
  using assms by (auto simp: load_tasks_def)

lemma process_project_missing:
  assumes "files w (tasks_file home p) = FileNotFoundError \<or>
    files w (tasks_file home p) = JSONDecodeError"
    and "py_getitem proj ''path'' = Inr (JStr p)"
  shows "process_project home w g proj =
     Inr (g\<lparr>all_stats := all_stats g @
            [\<lparr>st_proj = proj, st_counts = initial_counts, st_n = 0, st_done = 0,
              st_milestone = JStr []\<rparr>]\<rparr>)"
proof -
  have "process_project home w g proj =
     Inr (g\<lparr>all_stats := all_stats g @
            [\<lparr>st_proj = proj, st_counts = initial_counts, st_n = int (length ([]::json list)),
              st_done = 0, st_milestone = JStr []\<rparr>],
          total_tasks := total_tasks g + int (length ([]::json list)),
          total_done := total_done g + 0\<rparr>)"
  proof (rule process_project_eval [OF assms(2) load_tasks_missing [OF assms(1)]])
    show "py_get (JObj [(''tasks'', JArr [])]) ''tasks'' (JArr []) = Inr (JArr [])"
      by simp
    show "py_iter (JArr []) = Inr []"
      by (simp add: py_iter_def)
    show "count_tasks proj (initial_counts, g) [] = Inr (initial_counts, g)"
      by simp
    show "counts_getitem initial_counts (KStr ''completed'') = Inr 0"
      by (rule counts_getitem_initial)
    show "py_get (JObj [(''tasks'', JArr [])]) ''milestone'' (JObj []) = Inr (JObj [])"
      by simp
    show "py_get (JObj []) ''name'' (JStr []) = Inr (JStr [])"
      by simp
  qed
  then show ?thesis by simp
qed

lemma project_row_zero:
  assumes "py_getitem proj ''name'' = Inr name"
    and "bind (py_get proj ''status'' (JStr [])) py_hash = Inr k"
  shows "project_row \<lparr>st_proj = proj, st_counts = initial_counts, st_n = 0, st_done = 0,
              st_milestone = JStr []\<rparr> =
     Inr [name, JStr (icon_for k), JStr [], JStr [], JStr [], JStr [], JStr [],
          JStr ''[dim]--------------------[/]  --'', JStr []]"
proof -
  from assms(2) obtain s where
    "py_get proj ''status'' (JStr []) = Inr s" and "py_hash s = Inr k"
    by (auto simp: bind_eq_Inr)
  then show ?thesis
    by (simp add: project_row_def assms(1) make_progress_bar_zero_total counts_getitem_initial
        count_cell_def)
qed

lemma str_int_0 [simp]: "str_int 0 = ''0''"
  by (simp add: str_int_def str_nat.simps digit_char_def)

lemma total_row_empty:
  "total_row empty_gathered =
     Inr [JStr ''[bold]TOTAL[/]'', JStr [], JStr [], JStr [], JStr [], JStr [], JStr [],
          JStr ''[dim]--------------------[/]  --'', JStr ''0/0 tasks'']"
  by (simp add: total_row_def empty_gathered_def make_progress_bar_zero_total count_cell_def)

lemma gather_empty_registry: "gather home w (empty_registry home) = Inr empty_gathered"
  by (simp add: gather_def empty_registry_def py_iter_def)

lemma build_display_empty_registry:
  "build_display home w (empty_registry home) =
     Inr \<lparr>tbl_rows = [],
          tbl_total =
            [JStr ''[bold]TOTAL[/]'', JStr [], JStr [], JStr [], JStr [], JStr [], JStr [],
             JStr ''[dim]--------------------[/]  --'', JStr ''0/0 tasks''],
          ip_panel = [Lit ''  [dim]No tasks in progress[/]''],
          rc_panel = [Lit ''  [dim]No completed tasks yet[/]''],
          footer = footer_line w\<rparr>"
  by (simp add: build_display_def gather_empty_registry render_def total_row_empty)
     (simp add: empty_gathered_def in_progress_panel_def completed_panel_def
        recently_completed_def)

subsection \<open>Powers of two\<close>

lemma two_powi_pos [simp]: "0 < (2::rat) powi k"
  by simp

lemma two_powi_mono: "a \<le> b \<Longrightarrow> (2::rat) powi a \<le> 2 powi b"
  by (rule power_int_increasing) simp_all

lemma two_powi_strict_mono: "a < b \<Longrightarrow> (2::rat) powi a < 2 powi b"
  by (rule power_int_strict_increasing) simp_all

lemma two_powi_add: "(2::rat) powi (a + b) = 2 powi a * 2 powi b"
  by (rule power_int_add) simp

lemma two_powi_diff: "(2::rat) powi (a - b) = 2 powi a / 2 powi b"
  by (rule power_int_diff) simp

lemma two_powi_less_cancel: "(2::rat) powi a < 2 powi b \<Longrightarrow> a < b"
proof (rule ccontr)
  assume "2 powi a < (2::rat) powi b" and "\<not> a < b"
  then have "b \<le> a" by simp
  then have "(2::rat) powi b \<le> 2 powi a" by (rule two_powi_mono)
  with \<open>2 powi a < (2::rat) powi b\<close> show False by simp
qed

lemma two_powi_nat: "0 \<le> k \<Longrightarrow> (2::rat) powi k = 2 ^ nat k"
  by (rule power_int_nonneg_exp)

subsection \<open>The binade of a positive rational\<close>

lemma bitlen_lower: "0 < x \<Longrightarrow> (2::rat) powi (bitlen x - 1) \<le> of_int x"
proof -
  assume x: "0 < x"
  then have "1 \<le> bitlen x"
    using bitlen_eq_zero_iff [of x] bitlen_nonneg [of x] by linarith
  then have "(2::rat) powi (bitlen x - 1) = 2 ^ nat (bitlen x - 1)"
    by (simp add: two_powi_nat)
  also have "\<dots> = of_int (2 ^ nat (bitlen x - 1))"
    by simp
  also have "\<dots> \<le> of_int x"
    using bitlen_bounds [OF x] by (simp only: of_int_le_iff)
  finally show ?thesis .
qed

lemma bitlen_upper: "0 < x \<Longrightarrow> of_int x < (2::rat) powi bitlen x"
proof -
  assume x: "0 < x"
  have "of_int x < (of_int (2 ^ nat (bitlen x)) :: rat)"
    using bitlen_bounds [OF x] by (simp only: of_int_less_iff)
  also have "\<dots> = 2 ^ nat (bitlen x)"
    by simp
  also have "\<dots> = 2 powi bitlen x"
    using bitlen_nonneg [of x] by (simp add: two_powi_nat)
  finally show ?thesis .
qed

lemma binade_bounds:
  assumes "0 < m"
  shows "2 powi binade m \<le> m" and "m < 2 powi (binade m + 1)"
proof -
  obtain p q where pq: "quotient_of m = (p, q)"
    by (cases "quotient_of m")
  then have q: "0 < q" and m: "m = of_int p / of_int q"
    by (rule quotient_of_denom_pos, rule quotient_of_div)
  from assms q m have p: "0 < p"
    by (simp add: zero_less_divide_iff)
  define d where "d = bitlen p - bitlen q"
  have qpos: "(0::rat) < of_int q" using q by simp
  have "m < 2 powi bitlen p / 2 powi (bitlen q - 1)"
  proof -
    have "m < 2 powi bitlen p / of_int q"
      unfolding m using bitlen_upper [OF p] qpos by (simp add: divide_strict_right_mono)
    also have "\<dots> \<le> 2 powi bitlen p / 2 powi (bitlen q - 1)"
      using bitlen_lower [OF q] qpos by (intro divide_left_mono mult_pos_pos) simp_all
    finally show ?thesis .
  qed
  then have upper: "m < 2 powi (d + 1)"
    by (simp add: d_def two_powi_diff [symmetric] algebra_simps)
  have "(2::rat) powi (bitlen p - 1) / 2 powi bitlen q < m"
  proof -
    have "(2::rat) powi (bitlen p - 1) / 2 powi bitlen q < 2 powi (bitlen p - 1) / of_int q"
      using bitlen_upper [OF q] qpos by (intro divide_strict_left_mono mult_pos_pos) simp_all
    also have "\<dots> \<le> m"
      unfolding m using bitlen_lower [OF p] qpos by (simp add: divide_right_mono)
    finally show ?thesis .
  qed
  then have lower: "2 powi (d - 1) < m"
    by (simp add: d_def two_powi_diff [symmetric] algebra_simps)
  have b: "binade m = (if 2 powi d \<le> m then d else d - 1)"
    by (simp add: binade_def pq d_def)
  show "2 powi binade m \<le> m"
    using lower by (simp add: b)
  show "m < 2 powi (binade m + 1)"
    using upper by (simp add: b)
qed

lemma binade_unique:
  assumes "2 powi e \<le> m" and "m < 2 powi (e + 1)"
  shows "binade m = e"
proof -
  have pos: "0 < m"
    using assms(1) two_powi_pos [of e] by linarith
  note b = binade_bounds [OF pos]
  have "2 powi e < (2::rat) powi (binade m + 1)"
    using assms(1) b(2) by linarith
  then have "e < binade m + 1" by (rule two_powi_less_cancel)
  moreover have "2 powi binade m < (2::rat) powi (e + 1)"
    using assms(2) b(1) by linarith
  then have "binade m < e + 1" by (rule two_powi_less_cancel)
  ultimately show ?thesis by simp
qed

lemma binade_mono:
  assumes "0 < x" and "x \<le> y"
  shows "binade x \<le> binade y"
proof -
  from assms have y: "0 < y" by simp
  have "2 powi binade x \<le> x" using assms(1) by (rule binade_bounds)
  also note \<open>x \<le> y\<close>
  also have "y < 2 powi (binade y + 1)" using y by (rule binade_bounds)
  finally have "binade x < binade y + 1" by (rule two_powi_less_cancel)
  then show ?thesis by simp
qed

lemma quantum_mono: "0 < x \<Longrightarrow> x \<le> y \<Longrightarrow> quantum x \<le> quantum y"
  using binade_mono [of x y] by (simp add: quantum_def)

subsection \<open>Rounding to an integer\<close>

lemma round_half_even_cases:
  "round_half_even y = \<lfloor>y\<rfloor> \<or> round_half_even y = \<lfloor>y\<rfloor> + 1"
  by (simp add: round_half_even_def Let_def)

lemma round_half_even_of_int [simp]: "round_half_even (of_int n) = n"
  by (simp add: round_half_even_def)

lemma round_half_even_near: "\<bar>of_int (round_half_even y) - y\<bar> \<le> 1 / 2"
proof -
  have "of_int \<lfloor>y\<rfloor> \<le> y" and "y < of_int \<lfloor>y\<rfloor> + 1"
    by linarith+
  then show ?thesis
    by (auto simp: round_half_even_def Let_def)
qed

lemma round_half_even_mono:
  assumes "x \<le> y"
  shows "round_half_even x \<le> round_half_even y"
proof (cases "\<lfloor>x\<rfloor> = \<lfloor>y\<rfloor>")
  case True
  with assms show ?thesis
    by (auto simp: round_half_even_def Let_def)
next
  case False
  with assms have "\<lfloor>x\<rfloor> < \<lfloor>y\<rfloor>"
    using floor_mono [of x y] by linarith
  moreover have "round_half_even x \<le> \<lfloor>x\<rfloor> + 1"
    using round_half_even_cases [of x] by linarith
  moreover have "\<lfloor>y\<rfloor> \<le> round_half_even y"
    using round_half_even_cases [of y] by linarith
  ultimately show ?thesis by linarith
qed

lemma round_half_even_nonneg: "0 \<le> y \<Longrightarrow> 0 \<le> round_half_even y"
  using round_half_even_mono [of 0 y] round_half_even_of_int [of 0] by simp

subsection \<open>Rounding to the grid of floats\<close>

text \<open>Rounding a magnitude at a fixed spacing \<open>2^k\<close>.\<close>

lemma fl_pos: "m \<noteq> 0 \<Longrightarrow>
    fl m = of_int (round_half_even (m / 2 powi quantum m)) * 2 powi quantum m"
  by (simp add: fl_def)

lemma fl_zero [simp]: "fl 0 = 0"
  by (simp add: fl_def)

lemma fl_nonneg: "0 \<le> m \<Longrightarrow> 0 \<le> fl m"
  by (cases "m = 0") (simp_all add: fl_pos round_half_even_nonneg)

text \<open>
  A grid point of spacing \<open>2^k\<close> that bounds \<open>m\<close> also bounds \<open>m\<close> rounded at any finer
  spacing.
\<close>

lemma grid_upper:
  assumes "m \<le> of_int n * 2 powi k" and "q \<le> k"
  shows "of_int (round_half_even (m / 2 powi q)) * 2 powi q \<le> (of_int n :: rat) * 2 powi k"
proof -
  have k: "(2::rat) powi k = 2 powi (k - q) * 2 powi q"
    by (simp add: two_powi_add [symmetric])
  have nat: "(2::rat) powi (k - q) = of_int (2 ^ nat (k - q))"
    using assms(2) by (simp add: two_powi_nat)
  have "m / 2 powi q \<le> of_int n * 2 powi (k - q)"
    using assms(1) by (simp add: k pos_divide_le_eq mult.assoc)
  also have "\<dots> = of_int (n * 2 ^ nat (k - q))"
    by (simp add: nat)
  finally have "round_half_even (m / 2 powi q) \<le> round_half_even (of_int (n * 2 ^ nat (k - q)))"
    by (rule round_half_even_mono)
  then have "round_half_even (m / 2 powi q) \<le> n * 2 ^ nat (k - q)"
    by (simp only: round_half_even_of_int)
  then have "(of_int (round_half_even (m / 2 powi q)) :: rat) \<le> of_int (n * 2 ^ nat (k - q))"
    by (simp only: of_int_le_iff)
  then have "of_int (round_half_even (m / 2 powi q)) * 2 powi q
      \<le> (of_int (n * 2 ^ nat (k - q)) :: rat) * 2 powi q"
    by (rule mult_right_mono) simp
  also have "\<dots> = of_int n * 2 powi k"
    by (simp add: k nat mult.assoc)
  finally show ?thesis .
qed

lemma grid_lower:
  assumes "of_int n * 2 powi k \<le> m" and "q \<le> k"
  shows "(of_int n :: rat) * 2 powi k \<le> of_int (round_half_even (m / 2 powi q)) * 2 powi q"
proof -
  have k: "(2::rat) powi k = 2 powi (k - q) * 2 powi q"
    by (simp add: two_powi_add [symmetric])
  have nat: "(2::rat) powi (k - q) = of_int (2 ^ nat (k - q))"
    using assms(2) by (simp add: two_powi_nat)
  have "of_int (n * 2 ^ nat (k - q)) = of_int n * (2::rat) powi (k - q)"
    by (simp add: nat)
  also have "\<dots> \<le> m / 2 powi q"
    using assms(1) by (simp add: k pos_le_divide_eq mult.assoc)
  finally have "round_half_even (of_int (n * 2 ^ nat (k - q))) \<le> round_half_even (m / 2 powi q)"
    by (rule round_half_even_mono)
  then have "n * 2 ^ nat (k - q) \<le> round_half_even (m / 2 powi q)"
    by (simp only: round_half_even_of_int)
  then have "(of_int (n * 2 ^ nat (k - q)) :: rat) \<le> of_int (round_half_even (m / 2 powi q))"
    by (simp only: of_int_le_iff)
  then have le: "(of_int (n * 2 ^ nat (k - q)) :: rat) * 2 powi q
      \<le> of_int (round_half_even (m / 2 powi q)) * 2 powi q"
    by (rule mult_right_mono) simp
  have "(of_int n :: rat) * 2 powi k = of_int (n * 2 ^ nat (k - q)) * 2 powi q"
    by (simp add: k nat mult.assoc)
  also note le
  finally show ?thesis .
qed

lemma quantum_le_binade: "quantum m \<le> binade m \<or> quantum m = - 1074"
  by (auto simp: quantum_def)

lemma fl_mono:
  assumes "0 \<le> x" and "x \<le> y"
  shows "fl x \<le> fl y"
proof (cases "x = 0")
  case True
  with assms show ?thesis by (simp add: fl_nonneg)
next
  case False
  with assms have x: "0 < x" and y: "0 < y" by simp_all
  have qxy: "quantum x \<le> quantum y"
    using x assms(2) by (rule quantum_mono)
  show ?thesis
  proof (cases "quantum x = quantum y")
    case True
    have "x / 2 powi quantum y \<le> y / 2 powi quantum y"
      using assms(2) by (simp add: divide_right_mono)
    then have "round_half_even (x / 2 powi quantum y) \<le> round_half_even (y / 2 powi quantum y)"
      by (rule round_half_even_mono)
    then have "(of_int (round_half_even (x / 2 powi quantum y)) :: rat)
        \<le> of_int (round_half_even (y / 2 powi quantum y))"
      by (simp only: of_int_le_iff)
    then have "of_int (round_half_even (x / 2 powi quantum y)) * 2 powi quantum y
        \<le> (of_int (round_half_even (y / 2 powi quantum y)) :: rat) * 2 powi quantum y"
      by (rule mult_right_mono) simp
    with x y True show ?thesis
      by (simp add: fl_pos)
  next
    case False
    with qxy have lt: "quantum x < quantum y" by simp
    then have qy: "quantum y = binade y - 52" and bxy: "binade x < binade y"
      by (auto simp: quantum_def)
    have "x < 2 powi (binade x + 1)"
      using x by (rule binade_bounds)
    also have "\<dots> \<le> 2 powi binade y"
      using bxy by (intro two_powi_mono) simp
    finally have xb: "x \<le> of_int 1 * 2 powi binade y"
      by simp
    have yb: "of_int 1 * 2 powi binade y \<le> y"
      using binade_bounds(1) [OF y] by simp
    have qx: "quantum x \<le> binade y"
      using lt qy by simp
    have qy': "quantum y \<le> binade y"
      using qy by simp
    have "fl x = of_int (round_half_even (x / 2 powi quantum x)) * 2 powi quantum x"
      using x by (simp add: fl_pos)
    also have "\<dots> \<le> of_int 1 * 2 powi binade y"
      using xb qx by (rule grid_upper)
    also have "\<dots> \<le> of_int (round_half_even (y / 2 powi quantum y)) * 2 powi quantum y"
      using yb qy' by (rule grid_lower)
    also have "\<dots> = fl y"
      using y by (simp add: fl_pos)
    finally show ?thesis .
  qed
qed

lemma fl_exact:
  assumes "0 < n" and "n < 2 ^ 53" and "- 1074 \<le> k"
  shows "fl (of_int n * 2 powi k) = of_int n * 2 powi k"
proof -
  let ?m = "(of_int n :: rat) * 2 powi k"
  have pos: "0 < ?m"
    using assms(1) by simp
  have "(of_int n :: rat) < of_int (2 ^ 53)"
    using assms(2) by (simp only: of_int_less_iff)
  then have "?m < 2 powi 53 * 2 powi k"
    by (simp add: mult_strict_right_mono)
  then have "?m < 2 powi (53 + k)"
    by (simp only: two_powi_add)
  with binade_bounds(1) [OF pos] have "2 powi binade ?m < (2::rat) powi (53 + k)"
    by linarith
  then have "binade ?m < 53 + k"
    by (rule two_powi_less_cancel)
  with assms(3) have q: "quantum ?m \<le> k"
    by (simp add: quantum_def)
  from assms(1) have "?m \<noteq> 0"
    by simp
  then have "fl ?m = of_int (round_half_even (?m / 2 powi quantum ?m)) * 2 powi quantum ?m"
    by (rule fl_pos)
  moreover have "of_int (round_half_even (?m / 2 powi quantum ?m)) * 2 powi quantum ?m \<le> ?m"
    using order_refl q by (rule grid_upper)
  moreover have "?m \<le> of_int (round_half_even (?m / 2 powi quantum ?m)) * 2 powi quantum ?m"
    using order_refl q by (rule grid_lower)
  ultimately show ?thesis by simp
qed

lemma fl_two_powi: "- 1074 \<le> k \<Longrightarrow> fl (2 powi k) = 2 powi k"
  using fl_exact [of 1 k] by simp

lemma fl_of_int:
  assumes "0 \<le> n" and "n \<le> 2 ^ 53"
  shows "fl (of_int n) = of_int n"
proof -
  consider "n = 0" | "0 < n" "n < 2 ^ 53" | "n = 2 ^ 53"
    using assms by linarith
  then show ?thesis
  proof cases
    case 1
    then show ?thesis by simp
  next
    case 2
    then show ?thesis using fl_exact [of n 0] by simp
  next
    case 3
    then show ?thesis using fl_two_powi [of 53] by simp
  qed
qed

lemma fl_numerals [simp]: "fl 1 = 1" "fl 20 = 20" "fl 100 = 100"
  using fl_of_int [of 1] fl_of_int [of 20] fl_of_int [of 100] by simp_all

lemma fl_le_two_powi:
  assumes "0 \<le> m" and "m \<le> 2 powi k" and "- 1074 \<le> k"
  shows "fl m \<le> 2 powi k"
  using fl_mono [OF assms(1,2)] fl_two_powi [OF assms(3)] by simp

lemma no_overflow:
  assumes "0 \<le> m" and "m \<le> 2 powi k" and "- 1074 \<le> k" and "k < 1024"
  shows "\<not> overflows m"
proof -
  have "fl m \<le> 2 powi k"
    using assms(1-3) by (rule fl_le_two_powi)
  also have "\<dots> < 2 powi 1024"
    using assms(4) by (rule two_powi_strict_mono)
  finally show ?thesis
    by (simp add: overflows_def)
qed

lemma no_overflow_le_one: "0 \<le> m \<Longrightarrow> m \<le> 1 \<Longrightarrow> \<not> overflows m"
  using no_overflow [of m 0] by simp

lemma fl_eval:
  assumes "2 powi e \<le> m" and "m < 2 powi (e + 1)"
  shows "fl m = of_int (round_half_even (m / 2 powi max (e - 52) (- 1074)))
     * 2 powi max (e - 52) (- 1074)"
proof -
  have "0 < m"
    using assms(1) two_powi_pos [of e] by linarith
  moreover have "binade m = e"
    using assms by (rule binade_unique)
  ultimately show ?thesis
    using fl_pos [of m] by (simp add: quantum_def)
qed

subsection \<open>The ratio formatter on counts\<close>

lemma int_truediv_nonneg:
  assumes "0 \<le> a" and "0 < b" and "\<not> overflows (of_int a / of_int b)"
  shows "int_truediv a b = Inr (Finite False (fl (of_int a / of_int b)))"
proof -
  have "\<bar>(of_int a / of_int b :: rat)\<bar> = of_int a / of_int b"
    using assms(1,2) by simp
  with assms show ?thesis
    by (simp add: int_truediv_def Let_def)
qed

lemma int_to_float_nonneg:
  assumes "0 \<le> n" and "\<not> overflows (of_int n)"
  shows "int_to_float n = Inr (Finite False (fl (of_int n)))"
  using assms by (simp add: int_to_float_def Let_def)

lemma float_mul_int_nonneg:
  assumes "0 \<le> n" and "\<not> overflows (of_int n)" and "\<not> overflows (m * fl (of_int n))"
  shows "float_mul_int (Finite False m) n = Inr (Finite False (fl (m * fl (of_int n))))"
  using assms by (simp add: float_mul_int_def int_to_float_nonneg float_mul_def)

lemma bar_filled_nonneg:
  assumes "0 \<le> done" and "0 < tot" and "0 \<le> width"
    and "\<not> overflows (of_int done / of_int tot)"
    and "\<not> overflows (of_int width)"
    and "\<not> overflows (fl (of_int done / of_int tot) * fl (of_int width))"
  shows "bar_filled done tot width =
     Inr \<lfloor>fl (fl (of_int done / of_int tot) * fl (of_int width))\<rfloor>"
  using assms
  by (simp add: bar_filled_def int_truediv_nonneg float_mul_int_nonneg float_to_int_def)

lemma make_progress_bar_filled:
  assumes "tot \<noteq> 0"
  shows "make_progress_bar done tot width =
     bind (bar_filled done tot width) (\<lambda>filled.
     bind (int_truediv done tot) (\<lambda>pct.
       Inr (''[green]'' @ str_repeat full_cell filled @ ''[/][dim]''
            @ str_repeat empty_cell (width - filled) @ ''[/]'' @ '' '' @ format_percent pct)))"
proof (cases "int_truediv done tot")
  case (Inl e)
  with assms show ?thesis
    by (simp add: make_progress_bar_def bar_filled_def)
next
  case (Inr pct)
  with assms show ?thesis
    by (cases "float_mul_int pct width"; cases "bind (float_mul_int pct width) float_to_int")
       (auto simp: make_progress_bar_def bar_filled_def Let_def bind_eq_Inr)
qed

text \<open>Counts: \<open>0 \<le> done \<le> total\<close>, \<open>0 < total\<close>, and a width of at most \<open>2^53\<close> cells.\<close>

lemma ratio_bounds:
  assumes "0 \<le> done" and "done \<le> tot" and "0 < tot"
  shows "0 \<le> (of_int done / of_int tot :: rat)" and "(of_int done / of_int tot :: rat) \<le> 1"
  using assms by simp_all

lemma pct_bounds:
  assumes "0 \<le> done" and "done \<le> tot" and "0 < tot"
  shows "0 \<le> fl (of_int done / of_int tot)" and "fl (of_int done / of_int tot) \<le> 1"
proof -
  note r = ratio_bounds [OF assms]
  show "0 \<le> fl (of_int done / of_int tot)"
    using r(1) by (rule fl_nonneg)
  show "fl (of_int done / of_int tot) \<le> 1"
    using fl_mono [OF r] by simp
qed

lemma width_exact:
  assumes "0 \<le> width" and "width \<le> 2 ^ 53"
  shows "fl (of_int width) = of_int width" and "\<not> overflows (of_int width)"
proof -
  show "fl (of_int width) = of_int width"
    using assms by (rule fl_of_int)
  have "(of_int width :: rat) \<le> of_int (2 ^ 53)"
    using assms(2) by (simp only: of_int_le_iff)
  then have "(of_int width :: rat) \<le> 2 powi 53"
    by simp
  with assms(1) show "\<not> overflows (of_int width)"
    using no_overflow [of "of_int width" 53] by simp
qed

lemma product_bounds:
  assumes "0 \<le> p" and "p \<le> 1" and "0 \<le> width" and "width \<le> 2 ^ 53"
  shows "\<not> overflows (p * of_int width)" and "0 \<le> fl (p * of_int width)"
    and "fl (p * of_int width) \<le> of_int width"
proof -
  have w: "(0::rat) \<le> of_int width" using assms(3) by simp
  have le: "p * of_int width \<le> of_int width"
    using mult_right_mono [OF assms(2) w] by simp
  have nn: "0 \<le> p * of_int width"
    using assms(1) w by simp
  have "(of_int width :: rat) \<le> of_int (2 ^ 53)"
    using assms(4) by (simp only: of_int_le_iff)
  then have "p * of_int width \<le> 2 powi 53"
    using le by simp
  with nn show "\<not> overflows (p * of_int width)"
    using no_overflow [of "p * of_int width" 53] by simp
  from nn show "0 \<le> fl (p * of_int width)"
    by (rule fl_nonneg)
  from fl_mono [OF nn le] show "fl (p * of_int width) \<le> of_int width"
    using width_exact(1) [OF assms(3,4)] by simp
qed

lemma percent_bounds:
  assumes "0 \<le> p" and "p \<le> 1"
  shows "\<not> overflows (p * 100)" and "0 \<le> fl (p * 100)" and "fl (p * 100) \<le> 100"
  using product_bounds [OF assms, of 100] by simp_all

lemma format_percent_count:
  assumes "0 \<le> p" and "p \<le> 1"
  shows "format_percent (Finite False p) =
     rjust 4 (str_nat (nat (round_half_even (fl (p * 100)))) @ ''%'')"
  using percent_bounds(1) [OF assms]
  by (simp add: format_percent_def float_mul_def)

lemma bar_filled_count:
  assumes "0 \<le> done" and "done \<le> tot" and "0 < tot" and "0 \<le> width" and "width \<le> 2 ^ 53"
  shows "bar_filled done tot width =
     Inr \<lfloor>fl (fl (of_int done / of_int tot) * of_int width)\<rfloor>"
proof -
  note r = ratio_bounds [OF assms(1-3)]
  note p = pct_bounds [OF assms(1-3)]
  note w = width_exact [OF assms(4,5)]
  have "\<not> overflows (of_int done / of_int tot)"
    using r by (rule no_overflow_le_one)
  moreover have "\<not> overflows (fl (of_int done / of_int tot) * fl (of_int width))"
    using product_bounds(1) [OF p assms(4,5)] by (simp add: w(1))
  ultimately show ?thesis
    using bar_filled_nonneg [of "done" tot width] assms w by simp
qed

lemma make_progress_bar_count:
  assumes "0 \<le> done" and "done \<le> tot" and "0 < tot" and "0 \<le> width" and "width \<le> 2 ^ 53"
  shows "make_progress_bar done tot width =
     Inr (''[green]''
          @ str_repeat full_cell \<lfloor>fl (fl (of_int done / of_int tot) * of_int width)\<rfloor>
          @ ''[/][dim]''
          @ str_repeat empty_cell
              (width - \<lfloor>fl (fl (of_int done / of_int tot) * of_int width)\<rfloor>)
          @ ''[/] ''
          @ rjust 4 (str_nat (nat (round_half_even
              (fl (fl (of_int done / of_int tot) * 100)))) @ ''%''))"
proof -
  note r = ratio_bounds [OF assms(1-3)]
  note p = pct_bounds [OF assms(1-3)]
  have "\<not> overflows (of_int done / of_int tot)"
    using r by (rule no_overflow_le_one)
  then have td: "int_truediv done tot = Inr (Finite False (fl (of_int done / of_int tot)))"
    using assms(1,3) by (simp add: int_truediv_nonneg)
  from assms(3) have "tot \<noteq> 0" by simp
  then show ?thesis
    by (simp add: make_progress_bar_filled bar_filled_count [OF assms] td
        format_percent_count [OF p])
qed

lemma make_progress_bar_returns:
  assumes "0 \<le> done" and "done \<le> tot"
  shows "\<exists>s. make_progress_bar done tot 20 = Inr s"
proof (cases "tot = 0")
  case True
  then show ?thesis by (simp add: make_progress_bar_def)
next
  case False
  with assms have "0 < tot" by simp
  with assms show ?thesis
    by (simp add: make_progress_bar_count)
qed

section \<open>The claims\<close>

text \<open>
  Claim C2. Whenever the aggregation of a registry returns, every entry of \<^verbatim>\<open>all_stats\<close>
  belongs to a project whose task list was loaded, its \<^verbatim>\<open>n\<close> is the length of that list,
  the counts of its tally (all keys, known or not) add up to that length, and the count
  under every string \<open>s\<close> is the number of tasks whose status is \<open>s\<close>, where a task
  without a status has the status \<^verbatim>\<open>"pending"\<close> and any other string is counted under
  itself.
\<close>

theorem counts_sum_to_task_count:
  assumes "gather home w registry = Inr g" and "st \<in> set (all_stats g)"
  shows "\<exists>ts. project_tasks home w (st_proj st) = Inr ts \<and>
      st_n st = int (length ts) \<and>
      sum_list (map snd (st_counts st)) = int (length ts) \<and>
      (\<forall>s. counts_get (st_counts st) (KStr s) 0 = int (length (filter (has_status s) ts))) \<and>
      (\<forall>s kvs. has_status s (JObj kvs) \<longleftrightarrow>
         (case map_of kvs ''status'' of None \<Rightarrow> s = ''pending'' | Some v \<Rightarrow> v = JStr s))"
proof -
  have "\<forall>st \<in> set (all_stats g). \<exists>ts. project_tasks home w (st_proj st) = Inr ts \<and>
      st_n st = int (length ts) \<and>
      sum_list (map snd (st_counts st)) = int (length ts) \<and>
      (\<forall>s. counts_get (st_counts st) (KStr s) 0 = int (length (filter (has_status s) ts)))"
    using assms(1)
  proof (rule gather_stats_all)
    fix g g' proj
    assume "process_project home w g proj = Inr g'"
    from process_project_status_counts [OF this]
    show "\<exists>st. all_stats g' = all_stats g @ [st] \<and>
        (\<exists>ts. project_tasks home w (st_proj st) = Inr ts \<and>
          st_n st = int (length ts) \<and>
          sum_list (map snd (st_counts st)) = int (length ts) \<and>
          (\<forall>s. counts_get (st_counts st) (KStr s) 0 = int (length (filter (has_status s) ts))))"
      by blast
  qed
  with assms(2) show ?thesis
    by (simp add: has_status_obj)
qed

theorem counts_sum_to_task_count_witness:
  "gather example_home example_world example_registry = Inr example_gathered \<and>
   example_stat \<in> set (all_stats example_gathered) \<and>
   project_tasks example_home example_world (st_proj example_stat) = Inr example_tasks \<and>
   st_n example_stat = int (length example_tasks) \<and>
   sum_list (map snd (st_counts example_stat)) = int (length example_tasks) \<and>
   counts_get (st_counts example_stat) (KStr ''review'') 0 = 1 \<and>
   int (length (filter (has_status ''review'') example_tasks)) = 1 \<and>
   counts_get (st_counts example_stat) (KStr ''pending'') 0 = 2 \<and>
   int (length (filter (has_status ''pending'') example_tasks)) = 2"
proof -
  have mem: "example_stat \<in> set (all_stats example_gathered)"
    by (simp add: example_gathered_def)
  have pt: "project_tasks example_home example_world (st_proj example_stat) = Inr example_tasks"
    by (simp add: example_stat_def project_tasks_example)
  from counts_sum_to_task_count [OF gather_example mem] pt
  have "st_n example_stat = int (length example_tasks) \<and>
      sum_list (map snd (st_counts example_stat)) = int (length example_tasks) \<and>
      (\<forall>s. counts_get (st_counts example_stat) (KStr s) 0 =
         int (length (filter (has_status s) example_tasks)))"
    by auto
  moreover have "counts_get (st_counts example_stat) (KStr ''review'') 0 = 1"
    and "counts_get (st_counts example_stat) (KStr ''pending'') 0 = 2"
    by (simp_all add: example_stat_def counts_get_def)
  ultimately show ?thesis
    using gather_example mem pt by (simp del: of_nat_eq_iff)
qed

text \<open>
  Claim C5. Whenever the aggregation of a registry returns, \<^verbatim>\<open>recently_completed\<close> is the
  last eight entries of the list of completed tasks in encounter order (projects in
  registry order, tasks in task order, status exactly \<^verbatim>\<open>"completed"\<close>): it is a suffix of
  that list, so it keeps the relative order, its length is the minimum of 8 and the number
  of completed tasks of all projects, and it never has more than 8 entries. The panel of
  the display is built from exactly this list.
\<close>

theorem recently_completed_last_eight:
  assumes "gather home w registry = Inr g"
  shows "\<exists>projs. registry_projects registry = Inr projs \<and>
      recently_completed g =
        drop (length (encountered ''completed'' home w projs) - 8)
          (encountered ''completed'' home w projs) \<and>
      (\<exists>older. encountered ''completed'' home w projs = older @ recently_completed g) \<and>
      length (recently_completed g) =
        min 8 (sum_list (map (\<lambda>p. length (filter (has_status ''completed'')
          (tasks_or_none home w p))) projs)) \<and>
      length (recently_completed g) \<le> 8 \<and>
      (\<forall>d. render w g = Inr d \<longrightarrow>
         rc_panel d =
           (if recently_completed g \<noteq> []
            then join_lines (map completed_line (recently_completed g))
            else [Lit ''  [dim]No completed tasks yet[/]'']))"
proof -
  from assms obtain projs where
    rp: "registry_projects registry = Inr projs" and
    comp: "all_completed g = encountered ''completed'' home w projs"
    by (rule gather_result)
  let ?E = "encountered ''completed'' home w projs"
  have rc: "recently_completed g = drop (length ?E - 8) ?E"
    by (simp add: recently_completed_def comp)
  have "?E = take (length ?E - 8) ?E @ recently_completed g"
    by (simp add: rc)
  then have older: "\<exists>older. ?E = older @ recently_completed g" ..
  have len: "length (recently_completed g) = min 8 (length ?E)"
    by (simp add: rc)
  have panel: "\<forall>d. render w g = Inr d \<longrightarrow>
         rc_panel d =
           (if recently_completed g \<noteq> []
            then join_lines (map completed_line (recently_completed g))
            else [Lit ''  [dim]No completed tasks yet[/]''])"
    by (simp add: render_panels completed_panel_def)
  from rp rc older len panel show ?thesis
    by (simp add: length_encountered)
qed

theorem recently_completed_last_eight_witness:
  "gather example_home example_world example_registry = Inr example_gathered \<and>
   registry_projects example_registry = Inr [example_project] \<and>
   encountered ''completed'' example_home example_world [example_project] =
     [(JStr ''alpha'', JStr ''t3''), (JStr ''alpha'', JStr ''?'')] \<and>
   recently_completed example_gathered =
     [(JStr ''alpha'', JStr ''t3''), (JStr ''alpha'', JStr ''?'')]"
proof -
  have rp: "registry_projects example_registry = Inr [example_project]"
    by (simp add: registry_projects_def example_registry_def py_iter_def)
  have enc: "encountered ''completed'' example_home example_world [example_project] =
     [(JStr ''alpha'', JStr ''t3''), (JStr ''alpha'', JStr ''?'')]"
  proof -
    have "tasks_or_none example_home example_world example_project = example_tasks"
      by (simp add: tasks_or_none_def project_tasks_example)
    moreover have "entries_with ''completed'' example_project example_tasks =
        [(JStr ''alpha'', JStr ''t3''), (JStr ''alpha'', JStr ''?'')]"
      by (simp add: entries_with_def example_tasks_def has_status_def entry_of_def
          example_project_def py_getitem_def task_title_def)
    ultimately show ?thesis
      by (simp add: encountered_def)
  qed
  from recently_completed_last_eight [OF gather_example] rp enc gather_example
  show ?thesis by simp
qed

text \<open>
  Claim C9. The display title of a task record is its \<^verbatim>\<open>title\<close> field if present, else its
  \<^verbatim>\<open>id\<close> field if present, else the string \<^verbatim>\<open>"?"\<close>; in particular it is \<^verbatim>\<open>"?"\<close> for a record
  with neither field. Whenever the aggregation returns, every pair of the in-progress
  list and of the recently-completed list is the name of a project paired with the
  display title of one of the task records of that project.
\<close>

theorem display_title_fallback:
  "task_title (JObj kvs) =
     Inr (case map_of kvs ''title'' of
            Some v \<Rightarrow> v
          | None \<Rightarrow> (case map_of kvs ''id'' of Some v \<Rightarrow> v | None \<Rightarrow> JStr ''?'')) \<and>
   (map_of kvs ''title'' = None \<and> map_of kvs ''id'' = None \<longrightarrow>
      task_title (JObj kvs) = Inr (JStr ''?'')) \<and>
   (gather home w registry = Inr g \<and>
    e \<in> set (all_in_progress g) \<union> set (recently_completed g) \<longrightarrow>
      (\<exists>proj t. JObj t \<in> set (tasks_or_none home w proj) \<and>
         py_getitem proj ''name'' = Inr (fst e) \<and> task_title (JObj t) = Inr (snd e)))"
proof (intro conjI impI)
  show "task_title (JObj kvs) =
     Inr (case map_of kvs ''title'' of
            Some v \<Rightarrow> v
          | None \<Rightarrow> (case map_of kvs ''id'' of Some v \<Rightarrow> v | None \<Rightarrow> JStr ''?''))"
    by (rule task_title_obj)
  show "task_title (JObj kvs) = Inr (JStr ''?'')"
    if "map_of kvs ''title'' = None \<and> map_of kvs ''id'' = None"
    using that by (simp add: task_title_obj)
  show "\<exists>proj t. JObj t \<in> set (tasks_or_none home w proj) \<and>
         py_getitem proj ''name'' = Inr (fst e) \<and> task_title (JObj t) = Inr (snd e)"
    if asm: "gather home w registry = Inr g \<and>
      e \<in> set (all_in_progress g) \<union> set (recently_completed g)"
  proof -
    from asm have g: "gather home w registry = Inr g" by simp
    from g obtain projs where
      rp: "registry_projects registry = Inr projs" and
      ip: "all_in_progress g = encountered ''in_progress'' home w projs" and
      comp: "all_completed g = encountered ''completed'' home w projs"
      by (rule gather_result)
    have "set (recently_completed g) \<subseteq> set (all_completed g)"
      unfolding recently_completed_def by (rule set_drop_subset)
    with asm ip comp consider
      "e \<in> set (encountered ''in_progress'' home w projs)" |
      "e \<in> set (encountered ''completed'' home w projs)"
      by auto
    then show ?thesis
    proof cases
      case 1
      from gather_entry [OF g 1 rp] show ?thesis by simp
    next
      case 2
      from gather_entry [OF g 2 rp] show ?thesis by simp
    qed
  qed
qed

theorem display_title_fallback_witness:
  "task_title (JObj [(''status'', JStr ''completed'')]) = Inr (JStr ''?'') \<and>
   task_title (JObj [(''id'', JStr ''t3''), (''status'', JStr ''completed'')]) = Inr (JStr ''t3'') \<and>
   gather example_home example_world example_registry = Inr example_gathered \<and>
   (JStr ''alpha'', JStr ''?'') \<in> set (recently_completed example_gathered) \<and>
   (\<exists>proj t. JObj t \<in> set (tasks_or_none example_home example_world proj) \<and>
      py_getitem proj ''name'' = Inr (JStr ''alpha'') \<and>
      task_title (JObj t) = Inr (JStr ''?''))"
proof -
  have mem: "(JStr ''alpha'', JStr ''?'') \<in> set (recently_completed example_gathered)"
    by (simp add: recently_completed_def example_gathered_def)
  note first = display_title_fallback [of "[(''status'', JStr ''completed'')]"
      example_home example_world example_registry example_gathered "(JStr ''alpha'', JStr ''?'')"]
  note second = display_title_fallback [of "[(''id'', JStr ''t3''), (''status'', JStr ''completed'')]"
      example_home example_world example_registry example_gathered "(JStr ''alpha'', JStr ''?'')"]
  from first have a: "task_title (JObj [(''status'', JStr ''completed'')]) = Inr (JStr ''?'')"
    by simp
  from second have b: "task_title (JObj [(''id'', JStr ''t3''), (''status'', JStr ''completed'')]) =
      Inr (JStr ''t3'')"
    by simp
  from first gather_example mem
  have c: "\<exists>proj t. JObj t \<in> set (tasks_or_none example_home example_world proj) \<and>
      py_getitem proj ''name'' = Inr (JStr ''alpha'') \<and>
      task_title (JObj t) = Inr (JStr ''?'')"
    by simp
  from a b c gather_example mem show ?thesis by blast
qed

text \<open>
  Claim C1. When reading the registry file raises \<^verbatim>\<open>FileNotFoundError\<close> or
  \<^verbatim>\<open>JSONDecodeError\<close>, \<^verbatim>\<open>load_registry\<close> returns the empty registry (version 1, the default
  root, no projects) and the display built from it has no project row and totals of zero.
  When reading the task file of a project raises one of the two, \<^verbatim>\<open>load_tasks\<close> returns a
  record with an empty task list, and the project is appended to the statistics with five
  zero counts, zero tasks and an indeterminate bar. No exception leaves either step.
\<close>

theorem missing_sources_degrade:
  assumes "r = FileNotFoundError \<or> r = JSONDecodeError"
  shows "(files w (PROJECTS_JSON home) = r \<longrightarrow>
            load_registry home w = Inr (empty_registry home) \<and>
            empty_registry home =
              JObj [(''version'', JInt 1),
                    (''projects_root'', JStr (str_path (PROJECTS_ROOT home))),
                    (''projects'', JArr [])] \<and>
            gather home w (empty_registry home) = Inr empty_gathered \<and>
            bind (load_registry home w) (build_display home w) =
              Inr \<lparr>tbl_rows = [],
                   tbl_total =
                     [JStr ''[bold]TOTAL[/]'', JStr [], JStr [], JStr [], JStr [], JStr [],
                      JStr [], JStr ''[dim]--------------------[/]  --'', JStr ''0/0 tasks''],
                   ip_panel = [Lit ''  [dim]No tasks in progress[/]''],
                   rc_panel = [Lit ''  [dim]No completed tasks yet[/]''],
                   footer = footer_line w\<rparr>) \<and>
         (files w (tasks_file home p) = r \<and> py_getitem proj ''path'' = Inr (JStr p) \<longrightarrow>
            load_tasks home w (JStr p) = Inr (JObj [(''tasks'', JArr [])]) \<and>
            process_project home w g proj =
              Inr (g\<lparr>all_stats := all_stats g @
                     [\<lparr>st_proj = proj, st_counts = initial_counts, st_n = 0, st_done = 0,
                       st_milestone = JStr []\<rparr>]\<rparr>) \<and>
            (\<forall>k. counts_get initial_counts k 0 = 0) \<and>
            (\<forall>name k. py_getitem proj ''name'' = Inr name \<and>
                bind (py_get proj ''status'' (JStr [])) py_hash = Inr k \<longrightarrow>
                project_row \<lparr>st_proj = proj, st_counts = initial_counts, st_n = 0,
                    st_done = 0, st_milestone = JStr []\<rparr> =
                  Inr [name, JStr (icon_for k), JStr [], JStr [], JStr [], JStr [], JStr [],
                       JStr ''[dim]--------------------[/]  --'', JStr []]))"
proof (intro conjI impI allI)
  assume f: "files w (PROJECTS_JSON home) = r"
  with assms show lr: "load_registry home w = Inr (empty_registry home)"
    by (auto intro: load_registry_missing)
  show "empty_registry home =
      JObj [(''version'', JInt 1),
            (''projects_root'', JStr (str_path (PROJECTS_ROOT home))),
            (''projects'', JArr [])]"
    by (rule empty_registry_def)
  show "gather home w (empty_registry home) = Inr empty_gathered"
    by (rule gather_empty_registry)
  show "bind (load_registry home w) (build_display home w) =
      Inr \<lparr>tbl_rows = [],
           tbl_total =
             [JStr ''[bold]TOTAL[/]'', JStr [], JStr [], JStr [], JStr [], JStr [],
              JStr [], JStr ''[dim]--------------------[/]  --'', JStr ''0/0 tasks''],
           ip_panel = [Lit ''  [dim]No tasks in progress[/]''],
           rc_panel = [Lit ''  [dim]No completed tasks yet[/]''],
           footer = footer_line w\<rparr>"
    by (simp add: lr build_display_empty_registry)
next
  assume a: "files w (tasks_file home p) = r \<and> py_getitem proj ''path'' = Inr (JStr p)"
  with assms have missing: "files w (tasks_file home p) = FileNotFoundError \<or>
      files w (tasks_file home p) = JSONDecodeError"
    by auto
  from missing show "load_tasks home w (JStr p) = Inr (JObj [(''tasks'', JArr [])])"
    by (rule load_tasks_missing)
  from a have path: "py_getitem proj ''path'' = Inr (JStr p)" ..
  from missing path show "process_project home w g proj =
      Inr (g\<lparr>all_stats := all_stats g @
             [\<lparr>st_proj = proj, st_counts = initial_counts, st_n = 0, st_done = 0,
               st_milestone = JStr []\<rparr>]\<rparr>)"
    by (rule process_project_missing)
  show "counts_get initial_counts k 0 = 0" for k
    by simp
  show "project_row \<lparr>st_proj = proj, st_counts = initial_counts, st_n = 0,
          st_done = 0, st_milestone = JStr []\<rparr> =
        Inr [name, JStr (icon_for k), JStr [], JStr [], JStr [], JStr [], JStr [],
             JStr ''[dim]--------------------[/]  --'', JStr []]"
    if "py_getitem proj ''name'' = Inr name \<and>
        bind (py_get proj ''status'' (JStr [])) py_hash = Inr k" for name k
    using that by (simp add: project_row_zero)
qed

theorem missing_sources_degrade_witness:
  "files empty_world (PROJECTS_JSON example_home) = FileNotFoundError \<and>
   load_registry example_home empty_world = Inr (empty_registry example_home) \<and>
   files empty_world (tasks_file example_home ''alpha'') = FileNotFoundError \<and>
   py_getitem example_project ''path'' = Inr (JStr ''alpha'') \<and>
   process_project example_home empty_world empty_gathered example_project =
     Inr (empty_gathered\<lparr>all_stats :=
        [\<lparr>st_proj = example_project, st_counts = initial_counts, st_n = 0, st_done = 0,
          st_milestone = JStr []\<rparr>]\<rparr>) \<and>
   project_row \<lparr>st_proj = example_project, st_counts = initial_counts, st_n = 0,
       st_done = 0, st_milestone = JStr []\<rparr> =
     Inr [JStr ''alpha'', JStr ''[green]OK[/]'', JStr [], JStr [], JStr [], JStr [], JStr [],
          JStr ''[dim]--------------------[/]  --'', JStr []]"
proof -
  have f1: "files empty_world (PROJECTS_JSON example_home) = FileNotFoundError"
    and f2: "files empty_world (tasks_file example_home ''alpha'') = FileNotFoundError"
    by (simp_all add: empty_world_def)
  have path: "py_getitem example_project ''path'' = Inr (JStr ''alpha'')"
    and name: "py_getitem example_project ''name'' = Inr (JStr ''alpha'')"
    and status: "bind (py_get example_project ''status'' (JStr [])) py_hash =
      Inr (KStr ''buildable'')"
    by (simp_all add: example_project_def py_getitem_def py_hash_def)
  have icon: "icon_for (KStr ''buildable'') = ''[green]OK[/]''"
    by (simp add: icon_for_def PROJECT_STATUS_ICONS_def)
  from missing_sources_degrade [of FileNotFoundError empty_world example_home "''alpha''"
      example_project empty_gathered] f1 f2 path name status icon
  show ?thesis
    by (simp add: empty_gathered_def)
qed

end
